theory Spec2Isabelle
  imports Main
begin

section \<open>JavaScript strings\<close>

text \<open>
  A JavaScript string is a sequence of UTF-16 code units. The model is \<open>string\<close>, one
  \<open>char\<close> for one code unit in the range 0..255 (ASCII and the Latin-1 block); the
  functions below are the ECMAScript ones on that range.
\<close>

definition code :: "char \<Rightarrow> nat" where
  "code c = of_char c"

text \<open>
  The class \<open>\s\<close> of a regular expression and the characters \<open>trim\<close> removes are the
  same set (WhiteSpace and LineTerminator): TAB, LF, VT, FF, CR, SP and NBSP below 256.
\<close>

definition isWhiteSpace :: "char \<Rightarrow> bool" where
  "isWhiteSpace c = (code c = 9 \<or> code c = 10 \<or> code c = 11 \<or> code c = 12 \<or> code c = 13
     \<or> code c = 32 \<or> code c = 160)"

definition isDigit :: "char \<Rightarrow> bool" where
  "isDigit c = (48 \<le> code c \<and> code c \<le> 57)"

definition isLowerAZ :: "char \<Rightarrow> bool" where
  "isLowerAZ c = (97 \<le> code c \<and> code c \<le> 122)"

definition hyphen :: char where
  "hyphen = CHR ''-''"

definition isHyphen :: "char \<Rightarrow> bool" where
  "isHyphen c = (c = hyphen)"

text \<open>
  \<open>String.prototype.toLowerCase\<close> on one code unit: A-Z and the Latin-1 capitals
  (0xC0-0xDE without the multiplication sign 0xD7) move up by 32.
\<close>

definition toLowerCase_char :: "char \<Rightarrow> char" where
  "toLowerCase_char c =
     (if (65 \<le> code c \<and> code c \<le> 90) \<or> (192 \<le> code c \<and> code c \<le> 222 \<and> code c \<noteq> 215)
      then char_of (code c + 32) else c)"

definition toLowerCase :: "string \<Rightarrow> string" where
  "toLowerCase s = map toLowerCase_char s"

definition trim :: "string \<Rightarrow> string" where
  "trim s = rev (dropWhile isWhiteSpace (rev (dropWhile isWhiteSpace s)))"

subsection \<open>The three shapes of \<open>replace\<close> the code uses\<close>

text \<open>
  \<open>s.replace(/[class]/g, r)\<close>: every character of the class is replaced by \<open>r\<close>.
\<close>

definition replace_each :: "(char \<Rightarrow> bool) \<Rightarrow> string \<Rightarrow> string \<Rightarrow> string" where
  "replace_each P r s = concat (map (\<lambda>c. if P c then r else [c]) s)"

text \<open>
  \<open>s.replace(/X+/g, r)\<close> for a character class \<open>X\<close>: scanning from the left, every
  maximal run of characters of the class (\<open>+\<close> is greedy) is replaced by \<open>r\<close>.
\<close>

function replace_runs :: "(char \<Rightarrow> bool) \<Rightarrow> string \<Rightarrow> string \<Rightarrow> string" where
  "replace_runs P r [] = []"
| "replace_runs P r (c # cs) =
     (if P c then r @ replace_runs P r (dropWhile P cs) else c # replace_runs P r cs)"
  by pat_completeness auto
termination
  by (relation "measure (\<lambda>(P, r, s). length s)") (auto simp: length_dropWhile_le less_Suc_eq_le)

text \<open>
  \<open>s.replace(/^-|-$/g, "")\<close>: without the \<open>m\<close> flag \<open>^\<close> matches at index 0 only and
  \<open>$\<close> at the end only, so the scan removes a hyphen at index 0 (first alternative) and
  then a hyphen that is the last character of what is left to scan (second alternative).
  At most one hyphen goes at each end.
\<close>

definition replace_edge_hyphens :: "string \<Rightarrow> string" where
  "replace_edge_hyphens s =
     (let s1 = (case s of [] \<Rightarrow> [] | c # cs \<Rightarrow> if c = hyphen then cs else s)
      in if s1 \<noteq> [] \<and> last s1 = hyphen then butlast s1 else s1)"

section \<open>The identifier normalizer\<close>

text \<open>The class \<open>[a-z0-9\s-]\<close>; the first \<open>replace\<close> removes its complement.\<close>

definition slug_class :: "char \<Rightarrow> bool" where
  "slug_class c = (isLowerAZ c \<or> isDigit c \<or> isWhiteSpace c \<or> c = hyphen)"

definition generateSlug :: "string \<Rightarrow> string" where
  "generateSlug title =
     replace_edge_hyphens
       (replace_runs isHyphen ''-''
         (replace_runs isWhiteSpace ''-''
           (replace_each (\<lambda>c. \<not> slug_class c) ''''
             (trim (toLowerCase title)))))"

subsection \<open>The slug as the specification words it\<close>

text \<open>
  Lowercase, trimmed, all characters outside \<open>[a-z0-9\s-]\<close> removed, whitespace runs
  collapsed to single hyphens, hyphen runs collapsed to one, leading and trailing hyphens
  stripped. Each step is written from those words: a run is collapsed by keeping one
  member of it, and stripping removes all hyphens at both ends. After the removal step a
  whitespace run can stand at either end of the string; it is collapsed like the others
  (its hyphen is then stripped).
\<close>

fun collapse_runs :: "(char \<Rightarrow> bool) \<Rightarrow> string \<Rightarrow> string" where
  "collapse_runs P [] = []"
| "collapse_runs P [c] = [c]"
| "collapse_runs P (c # d # cs) =
     (if P c \<and> P d then collapse_runs P (d # cs) else c # collapse_runs P (d # cs))"

definition spec_whitespace_to_hyphens :: "string \<Rightarrow> string" where
  "spec_whitespace_to_hyphens s =
     map (\<lambda>c. if isWhiteSpace c then hyphen else c) (collapse_runs isWhiteSpace s)"

definition spec_strip_hyphens :: "string \<Rightarrow> string" where
  "spec_strip_hyphens s = rev (dropWhile isHyphen (rev (dropWhile isHyphen s)))"

definition spec_slug :: "string \<Rightarrow> string" where
  "spec_slug title =
     spec_strip_hyphens
       (collapse_runs isHyphen
         (spec_whitespace_to_hyphens
           (filter slug_class
             (trim (toLowerCase title)))))"

subsection \<open>Canonical slugs\<close>

fun no_adjacent_hyphens :: "string \<Rightarrow> bool" where
  "no_adjacent_hyphens [] = True"
| "no_adjacent_hyphens [c] = True"
| "no_adjacent_hyphens (c # d # cs) = (\<not> (c = hyphen \<and> d = hyphen) \<and> no_adjacent_hyphens (d # cs))"

definition slug_char :: "char \<Rightarrow> bool" where
  "slug_char c = (isLowerAZ c \<or> isDigit c \<or> c = hyphen)"

definition no_edge_hyphen :: "string \<Rightarrow> bool" where
  "no_edge_hyphen s = (s = [] \<or> (hd s \<noteq> hyphen \<and> last s \<noteq> hyphen))"

definition canonical_slug :: "string \<Rightarrow> bool" where
  "canonical_slug s = (list_all slug_char s \<and> no_edge_hyphen s \<and> no_adjacent_hyphens s)"

section \<open>Values, numbers and exceptions\<close>

text \<open>
  A thrown value: an \<open>Error\<close> object with its \<open>name\<close> and \<open>message\<close>, or anything
  else (\<open>e instanceof Error\<close> is false for it). \<open>new Error(m)\<close> has the name "Error".
\<close>

datatype js_exn = Exn (exn_name: string) (exn_message: string) | NonErrorThrown

definition new_Error :: "string \<Rightarrow> js_exn" where
  "new_Error m = Exn ''Error'' m"

text \<open>An entry of a match array: a string, or \<open>undefined\<close>.\<close>

datatype js_value = Undefined | Str string

text \<open>Reading an array at an index: \<open>undefined\<close> beyond its length.\<close>

definition index :: "js_value list \<Rightarrow> nat \<Rightarrow> js_value" where
  "index xs i = (if i < length xs then xs ! i else Undefined)"

definition ToString :: "js_value \<Rightarrow> string" where
  "ToString v = (case v of Undefined \<Rightarrow> ''undefined'' | Str s \<Rightarrow> s)"

definition truthy :: "js_value \<Rightarrow> bool" where
  "truthy v = (case v of Undefined \<Rightarrow> False | Str s \<Rightarrow> s \<noteq> [])"

text \<open>
  \<open>toUpperCase\<close> on one code unit: a-z and the Latin-1 small letters 0xE0-0xFE without the
  division sign 0xF7 move down by 32. (The three code units below 256 whose upper case is
  not a single code unit below 256, 0xB5, 0xDF and 0xFF, are left as they are; the regular
  expression of the time normalizer never captures them.)
\<close>

definition toUpperCase_char :: "char \<Rightarrow> char" where
  "toUpperCase_char c =
     (if (97 \<le> code c \<and> code c \<le> 122) \<or> (224 \<le> code c \<and> code c \<le> 254 \<and> code c \<noteq> 247)
      then char_of (code c - 32) else c)"

definition toUpperCase :: "string \<Rightarrow> string" where
  "toUpperCase s = map toUpperCase_char s"

text \<open>\<open>v?.toUpperCase()\<close>: \<open>undefined\<close> when \<open>v\<close> is.\<close>

definition optional_toUpperCase :: "js_value \<Rightarrow> js_value" where
  "optional_toUpperCase v = (case v of Undefined \<Rightarrow> Undefined | Str s \<Rightarrow> Str (toUpperCase s))"

text \<open>
  A number is an integer or NaN (\<open>None\<close>); every comparison with NaN is false.
\<close>

type_synonym number = "int option"

definition num_lt :: "number \<Rightarrow> int \<Rightarrow> bool" where
  "num_lt a k = (case a of None \<Rightarrow> False | Some n \<Rightarrow> n < k)"

definition num_gt :: "number \<Rightarrow> int \<Rightarrow> bool" where
  "num_gt a k = (case a of None \<Rightarrow> False | Some n \<Rightarrow> n > k)"

definition num_add :: "number \<Rightarrow> int \<Rightarrow> number" where
  "num_add a k = map_option (\<lambda>n. n + k) a"

definition digit_char :: "nat \<Rightarrow> char" where
  "digit_char n = char_of (48 + n)"

text \<open>The decimal digits of a number that is not negative.\<close>

function decimal :: "int \<Rightarrow> string" where
  "decimal n =
     (if n < 10 then [digit_char (nat n)] else decimal (n div 10) @ [digit_char (nat (n mod 10))])"
  by pat_completeness auto
termination
  by (relation "measure nat") auto

declare decimal.simps [simp del]

definition Number_toString :: "number \<Rightarrow> string" where
  "Number_toString a =
     (case a of None \<Rightarrow> ''NaN''
      | Some n \<Rightarrow> if n < 0 then CHR ''-'' # decimal (- n) else decimal n)"

definition padStart :: "nat \<Rightarrow> char \<Rightarrow> string \<Rightarrow> string" where
  "padStart w c s = replicate (w - length s) c @ s"

text \<open>
  \<open>parseInt(s)\<close> with no radix: leading white space is skipped, a sign is read, a prefix
  \<open>0x\<close> or \<open>0X\<close> selects base 16, and the longest run of digits of the base is the value;
  NaN when that run is empty.
\<close>

definition isHexDigit :: "char \<Rightarrow> bool" where
  "isHexDigit c = (isDigit c \<or> (65 \<le> code c \<and> code c \<le> 70) \<or> (97 \<le> code c \<and> code c \<le> 102))"

definition digit_value :: "char \<Rightarrow> nat" where
  "digit_value c =
     (if isDigit c then code c - 48 else if 97 \<le> code c then code c - 87 else code c - 55)"

definition digits_value :: "nat \<Rightarrow> string \<Rightarrow> nat" where
  "digits_value base ds = foldl (\<lambda>a c. base * a + digit_value c) 0 ds"

definition parseInt :: "string \<Rightarrow> number" where
  "parseInt s =
     (let t = dropWhile isWhiteSpace s;
          neg = (t \<noteq> [] \<and> hd t = CHR ''-'');
          u = (if t \<noteq> [] \<and> (hd t = CHR ''-'' \<or> hd t = CHR ''+'') then tl t else t);
          hex = (take 2 u = ''0x'' \<or> take 2 u = ''0X'');
          ds = (if hex then takeWhile isHexDigit (drop 2 u) else takeWhile isDigit u);
          n = int (digits_value (if hex then 16 else 10) ds)
      in if ds = [] then None else Some (if neg then - n else n))"

section \<open>The time normalizer\<close>

text \<open>
  The regular expression \<open>/^(\d{1,2}:\d{2})\s*(AM|PM)?$/i\<close> has two capturing groups:
  group 1 is the hours, the colon and the minutes together, group 2 the suffix. A match
  array therefore has three entries, the whole match and the two groups, the second group
  \<open>undefined\<close> when the suffix is absent.

  \<open>AM_PM\<close> is the alternative \<open>(AM|PM)\<close> under the flag \<open>i\<close>.
\<close>

definition AM_PM :: "string \<Rightarrow> bool" where
  "AM_PM s =
     (case s of
        [a, m] \<Rightarrow> (a = CHR ''A'' \<or> a = CHR ''a'' \<or> a = CHR ''P'' \<or> a = CHR ''p'')
                    \<and> (m = CHR ''M'' \<or> m = CHR ''m'')
      | _ \<Rightarrow> False)"

text \<open>
  One attempt of the match, with \<open>\d{1,2}\<close> taking \<open>n\<close> digits: \<open>n\<close> digits, a colon, two
  digits, any white space, then nothing more or the suffix and nothing more.
\<close>

definition timeRegex_with :: "nat \<Rightarrow> string \<Rightarrow> js_value list option" where
  "timeRegex_with n s =
     (let hh = take n s; mm = take 2 (drop (Suc n) s); r = dropWhile isWhiteSpace (drop (n + 3) s)
      in if length hh = n \<and> list_all isDigit hh \<and> take 1 (drop n s) = '':''
            \<and> length mm = 2 \<and> list_all isDigit mm
         then (if r = [] then Some [Str s, Str (take (n + 3) s), Undefined]
               else if AM_PM r then Some [Str s, Str (take (n + 3) s), Str r]
               else None)
         else None)"

text \<open>\<open>s.match(timeRegex)\<close>: the quantifier is greedy, two digits are tried first.\<close>

definition match_timeRegex :: "string \<Rightarrow> js_value list option" where
  "match_timeRegex s =
     (case timeRegex_with 2 s of Some m \<Rightarrow> Some m | None \<Rightarrow> timeRegex_with 1 s)"

text \<open>
  \<open>normalizeTime\<close>. The code reads the hours from \<open>match[1]\<close> (\<open>parseInt\<close> stops at the
  colon), the minutes from \<open>match[2]\<close> and the period from \<open>match[4]\<close>.
\<close>

definition normalizeTime :: "string \<Rightarrow> js_exn + string" where
  "normalizeTime timeStr =
     (case match_timeRegex (trim timeStr) of
        None \<Rightarrow> Inl (new_Error ''Invalid time format, expected HH:MM with optional AM/PM'')
      | Some m \<Rightarrow>
          (let hours0 = parseInt (ToString (index m 1));
               minutes = index m 2;
               period = optional_toUpperCase (index m 4);
               hours1 = (if truthy period \<and> period = Str ''PM'' \<and> hours0 \<noteq> Some 12
                         then num_add hours0 12 else hours0);
               hours = (if truthy period \<and> period = Str ''AM'' \<and> hours1 = Some 12
                        then Some 0 else hours1)
           in if num_lt hours 0 \<or> num_gt hours 23
                 \<or> num_lt (parseInt (ToString minutes)) 0 \<or> num_gt (parseInt (ToString minutes)) 59
              then Inl (new_Error ''Time must be between 00:00 and 23:59'')
              else Inr (padStart 2 (CHR ''0'') (Number_toString hours) @ '':'' @ ToString minutes)))"

section \<open>The date normalizer\<close>

text \<open>
  A time value is a number of milliseconds since 1970-01-01T00:00:00Z. The functions
  below are those of ECMAScript's "Time Values and Time Range" (Day, DayFromYear,
  YearFromTime, InLeapYear, MonthFromTime, DateFromTime), over \<open>int\<close>, with \<open>div\<close>
  rounding down as \<open>floor\<close> does.
\<close>

definition msPerDay :: int where
  "msPerDay = 86400000"

definition Day :: "int \<Rightarrow> int" where
  "Day t = t div msPerDay"

definition DayFromYear :: "int \<Rightarrow> int" where
  "DayFromYear y = 365 * (y - 1970) + (y - 1969) div 4 - (y - 1901) div 100 + (y - 1601) div 400"

text \<open>
  YearFromTime is the largest year whose first day is not after the day of \<open>t\<close>. It is
  computed from an estimate (400 years have 146097 days) that is off by one year at most.
\<close>

definition YearFromTime :: "int \<Rightarrow> int" where
  "YearFromTime t =
     (let e = 1970 + (400 * Day t) div 146097
      in if DayFromYear (e + 1) \<le> Day t then e + 1
         else if DayFromYear e \<le> Day t then e
         else e - 1)"

definition DayWithinYear :: "int \<Rightarrow> int" where
  "DayWithinYear t = Day t - DayFromYear (YearFromTime t)"

definition leap_day :: "int \<Rightarrow> int" where
  "leap_day y =
     (if y mod 4 \<noteq> 0 then 0 else if y mod 100 \<noteq> 0 then 1 else if y mod 400 \<noteq> 0 then 0 else 1)"

definition InLeapYear :: "int \<Rightarrow> int" where
  "InLeapYear t = leap_day (YearFromTime t)"

definition MonthFromTime :: "int \<Rightarrow> int" where
  "MonthFromTime t =
     (let d = DayWithinYear t; l = InLeapYear t
      in if d < 31 then 0
         else if d < 59 + l then 1
         else if d < 90 + l then 2
         else if d < 120 + l then 3
         else if d < 151 + l then 4
         else if d < 181 + l then 5
         else if d < 212 + l then 6
         else if d < 243 + l then 7
         else if d < 273 + l then 8
         else if d < 304 + l then 9
         else if d < 334 + l then 10
         else 11)"

definition DateFromTime :: "int \<Rightarrow> int" where
  "DateFromTime t =
     (let d = DayWithinYear t; l = InLeapYear t; m = MonthFromTime t
      in if m = 0 then d + 1
         else if m = 1 then d - 30
         else if m = 2 then d - 58 - l
         else if m = 3 then d - 89 - l
         else if m = 4 then d - 119 - l
         else if m = 5 then d - 150 - l
         else if m = 6 then d - 180 - l
         else if m = 7 then d - 211 - l
         else if m = 8 then d - 242 - l
         else if m = 9 then d - 272 - l
         else if m = 10 then d - 303 - l
         else d - 333 - l)"

definition pad :: "nat \<Rightarrow> int \<Rightarrow> string" where
  "pad w n = padStart w (CHR ''0'') (decimal n)"

text \<open>
  The year of \<open>toISOString\<close>: four digits from 0 to 9999, otherwise a sign and six digits.
\<close>

definition iso_year :: "int \<Rightarrow> string" where
  "iso_year y =
     (if 0 \<le> y \<and> y \<le> 9999 then pad 4 y
      else if y < 0 then CHR ''-'' # pad 6 (- y)
      else CHR ''+'' # pad 6 y)"

definition iso_date :: "int \<Rightarrow> string" where
  "iso_date t =
     iso_year (YearFromTime t) @ ''-'' @ pad 2 (MonthFromTime t + 1) @ ''-'' @ pad 2 (DateFromTime t)"

definition iso_time :: "int \<Rightarrow> string" where
  "iso_time t =
     pad 2 ((t mod msPerDay) div 3600000) @ '':'' @ pad 2 ((t div 60000) mod 60) @ '':''
       @ pad 2 ((t div 1000) mod 60) @ ''.'' @ pad 3 (t mod 1000)"

definition toISOString :: "int \<Rightarrow> string" where
  "toISOString t = iso_date t @ ''T'' @ iso_time t @ ''Z''"

text \<open>\<open>s.split("T")[0]\<close>: the text before the first \<open>T\<close>, all of \<open>s\<close> when it has none.\<close>

definition split_T_first :: "string \<Rightarrow> string" where
  "split_T_first s = takeWhile (\<lambda>c. c \<noteq> CHR ''T'') s"

text \<open>The shape \<open>YYYY-MM-DD\<close>: ten characters, digits but for the two hyphens.\<close>

definition is_YYYY_MM_DD :: "string \<Rightarrow> bool" where
  "is_YYYY_MM_DD s =
     (length s = 10 \<and> list_all isDigit (take 4 s) \<and> s ! 4 = hyphen
      \<and> list_all isDigit (take 2 (drop 5 s)) \<and> s ! 7 = hyphen \<and> list_all isDigit (drop 8 s))"


subsection \<open>\<open>Date.parse\<close>\<close>

text \<open>
  ECMAScript fixes what \<open>Date.parse\<close> returns on its date-time string format. Two forms
  of the format are written out here, with the fields in their ranges: the date alone,
  \<open>YYYY-MM-DD\<close>, which is midnight of that day in UTC, and the date with a time of day in
  UTC, \<open>YYYY-MM-DDTHH:mm:ssZ\<close>.
\<close>

definition number_of :: "string \<Rightarrow> int" where
  "number_of ds = foldl (\<lambda>a c. 10 * a + int (digit_value c)) 0 ds"

definition DaysInMonth :: "int \<Rightarrow> int \<Rightarrow> int" where
  "DaysInMonth y m =
     (if m = 2 then 28 + leap_day y
      else if m = 4 \<or> m = 6 \<or> m = 9 \<or> m = 11 then 30
      else 31)"

definition DaysBeforeMonth :: "int \<Rightarrow> int \<Rightarrow> int" where
  "DaysBeforeMonth y m =
     (if m = 1 then 0
      else if m = 2 then 31
      else if m = 3 then 59 + leap_day y
      else if m = 4 then 90 + leap_day y
      else if m = 5 then 120 + leap_day y
      else if m = 6 then 151 + leap_day y
      else if m = 7 then 181 + leap_day y
      else if m = 8 then 212 + leap_day y
      else if m = 9 then 243 + leap_day y
      else if m = 10 then 273 + leap_day y
      else if m = 11 then 304 + leap_day y
      else 334 + leap_day y)"

text \<open>The day number of the day \<open>d\<close> of the month \<open>m\<close> (from 1) of the year \<open>y\<close>.\<close>

definition MakeDay :: "int \<Rightarrow> int \<Rightarrow> int \<Rightarrow> int" where
  "MakeDay y m d = DayFromYear y + DaysBeforeMonth y m + d - 1"

definition date_form :: "string \<Rightarrow> int option" where
  "date_form s =
     (if is_YYYY_MM_DD s
      then (let y = number_of (take 4 s); m = number_of (take 2 (drop 5 s)); d = number_of (drop 8 s)
            in if 1 \<le> m \<and> m \<le> 12 \<and> 1 \<le> d \<and> d \<le> DaysInMonth y m
               then Some (MakeDay y m d * msPerDay) else None)
      else None)"

text \<open>The time of day \<open>THH:mm:ssZ\<close>, in milliseconds.\<close>

definition time_form :: "string \<Rightarrow> int option" where
  "time_form s =
     (if length s = 10 \<and> s ! 0 = CHR ''T'' \<and> list_all isDigit (take 2 (drop 1 s))
         \<and> s ! 3 = CHR '':'' \<and> list_all isDigit (take 2 (drop 4 s))
         \<and> s ! 6 = CHR '':'' \<and> list_all isDigit (take 2 (drop 7 s)) \<and> s ! 9 = CHR ''Z''
      then (let h = number_of (take 2 (drop 1 s)); mi = number_of (take 2 (drop 4 s));
                sec = number_of (take 2 (drop 7 s))
            in if h \<le> 23 \<and> mi \<le> 59 \<and> sec \<le> 59
               then Some (h * 3600000 + mi * 60000 + sec * 1000) else None)
      else None)"

definition format_parse :: "string \<Rightarrow> int option" where
  "format_parse s =
     (case date_form (take 10 s) of
        None \<Rightarrow> None
      | Some day \<Rightarrow>
          (if length s = 10 then Some day
           else (case time_form (drop 10 s) of None \<Rightarrow> None | Some ms \<Rightarrow> Some (day + ms))))"

text \<open>
  A string that is not of these two forms is read by the host: by what ECMAScript says
  for the rest of the format (which needs the host's local time when the string has a
  time and no zone), and by implementation-defined heuristics outside the format, in
  the host's local time. The host is the parameter \<open>host\<close>; \<open>None\<close> is NaN. Every date the
  engines read has a number in it (a day of the month at least): a string with no digit
  is unrecognizable, and \<open>Date.parse\<close> returns NaN for it on every host.
\<close>

definition Date_parse :: "(string \<Rightarrow> int option) \<Rightarrow> string \<Rightarrow> int option" where
  "Date_parse host s =
     (case format_parse s of
        Some tv \<Rightarrow> Some tv
      | None \<Rightarrow> if list_ex isDigit s then host s else None)"

text \<open>
  \<open>new Date(s)\<close> parses \<open>s\<close> as \<open>Date.parse\<close> does and clips the result to the time range
  (8.64e15 ms on either side of the epoch); \<open>None\<close> is the invalid date, whose
  \<open>getTime()\<close> is NaN.
\<close>

definition TimeClip :: "int \<Rightarrow> int option" where
  "TimeClip tv = (if \<bar>tv\<bar> > 8640000000000000 then None else Some tv)"

definition new_Date :: "(string \<Rightarrow> int option) \<Rightarrow> string \<Rightarrow> int option" where
  "new_Date host s = (case Date_parse host s of None \<Rightarrow> None | Some tv \<Rightarrow> TimeClip tv)"

subsection \<open>\<open>normalizeDate\<close>\<close>

definition normalizeDate :: "(string \<Rightarrow> int option) \<Rightarrow> string \<Rightarrow> js_exn + string" where
  "normalizeDate host dateStr =
     (case new_Date host dateStr of
        None \<Rightarrow> Inl (new_Error ''Invalid date format'')
      | Some tv \<Rightarrow> Inr (split_T_first (toISOString tv)))"

text \<open>
  Two hosts. The engines read "March 5, 2024", which is not in the date-time string
  format, as midnight of that day in local time. For a host one hour east of UTC that is
  2024-03-04T23:00:00Z; for a host in UTC it is 2024-03-05T00:00:00Z.
\<close>

definition parse_east_of_UTC :: "string \<Rightarrow> int option" where
  "parse_east_of_UTC s = (if s = ''March 5, 2024'' then Some 1709593200000 else None)"


section \<open>Identifiers\<close>

text \<open>
  An \<open>ObjectId\<close> is twelve bytes. Its string form, which a template literal interpolates,
  is their 24 lower-case hexadecimal digits. A string given for a path of this type is cast
  when it is assigned, and hexadecimal digits of either case give the same identifier; a
  value that cannot be cast is refused there, so a document never holds one.
\<close>

datatype objectId =
  ObjectId char char char char char char char char char char char char

definition hex_digit :: "nat \<Rightarrow> char" where
  "hex_digit n = (if n < 10 then char_of (48 + n) else char_of (87 + n))"

definition byte_hex :: "char \<Rightarrow> string" where
  "byte_hex c = [hex_digit (code c div 16), hex_digit (code c mod 16)]"

fun toHexString :: "objectId \<Rightarrow> string" where
  "toHexString (ObjectId b1 b2 b3 b4 b5 b6 b7 b8 b9 b10 b11 b12) =
     concat (map byte_hex [b1, b2, b3, b4, b5, b6, b7, b8, b9, b10, b11, b12])"

section \<open>The Event entity\<close>

text \<open>
  The fields of \<open>IEvent\<close> (the image field is \<open>image_url\<close> here; the timestamps, which the
  storage library manages, are left out) with the document's \<open>_id\<close>. A string field that
  is absent is the empty string: the \<open>required\<close> validator of a string rejects both.
\<close>

record event =
  doc_id :: objectId
  title :: string
  slug :: string
  description :: string
  overview :: string
  image_url :: string
  venue :: string
  location :: string
  date :: string
  time :: string
  mode :: string
  audience :: string
  agenda :: "string list"
  organizer :: string
  tags :: "string list"

text \<open>
  A document: its content (the fields), whether it was never saved, and the paths set since it was
  loaded. \<open>isModified(path)\<close> reads the latter.
\<close>

record 'a document =
  content :: 'a
  isNew :: bool
  modifiedPaths :: "string list"

definition isModified :: "'a document \<Rightarrow> string \<Rightarrow> bool" where
  "isModified d path = (path \<in> set (modifiedPaths d))"

text \<open>The setters of the \<open>slug\<close> path, \<open>lowercase\<close> and \<open>trim\<close>.\<close>

definition slug_setter :: "string \<Rightarrow> string" where
  "slug_setter v = trim (toLowerCase v)"

text \<open>
  The setters of the schema, which run when a field is assigned: \<open>trim\<close> on eight of the
  string fields, \<open>lowercase\<close> and \<open>trim\<close> on the slug. The fields of a document hold the
  values the setters left, and it is those the validators see.
\<close>

definition apply_setters :: "event \<Rightarrow> event" where
  "apply_setters e =
     e\<lparr>title := trim (title e), slug := slug_setter (slug e),
       description := trim (description e), overview := trim (overview e),
       image_url := trim (image_url e), venue := trim (venue e), location := trim (location e),
       audience := trim (audience e), organizer := trim (organizer e)\<rparr>"

subsection \<open>Field validation\<close>

text \<open>
  The validators of \<open>EventSchema\<close>, one error at most for a path: \<open>required\<close> first, then
  \<open>maxlength\<close> or \<open>enum\<close>; for the two arrays the custom validator (an array is never
  absent, it defaults to the empty array). The \<open>slug\<close> path has the setters \<open>lowercase\<close>
  and \<open>trim\<close> and no validator.
\<close>

definition required_maxlength :: "string \<Rightarrow> string \<Rightarrow> string \<Rightarrow> nat \<Rightarrow> string \<Rightarrow> (string \<times> string) list" where
  "required_maxlength path v req n long =
     (if v = [] then [(path, req)] else if length v > n then [(path, long)] else [])"

definition required :: "string \<Rightarrow> string \<Rightarrow> string \<Rightarrow> (string \<times> string) list" where
  "required path v req = (if v = [] then [(path, req)] else [])"

definition validate_mode :: "string \<Rightarrow> (string \<times> string) list" where
  "validate_mode v =
     (if v = [] then [(''mode'', ''Mode is required'')]
      else if v = ''online'' \<or> v = ''offline'' \<or> v = ''hybrid'' then []
      else [(''mode'', ''Mode must be either online, offline, or hybrid'')])"

definition validate_nonempty :: "string \<Rightarrow> string list \<Rightarrow> string \<Rightarrow> (string \<times> string) list" where
  "validate_nonempty path v msg = (if length v > 0 then [] else [(path, msg)])"

definition validate_event :: "event \<Rightarrow> (string \<times> string) list" where
  "validate_event e =
     required_maxlength ''title'' (title e) ''Title is required'' 100
         ''Title must be less than 100 characters''
     @ required_maxlength ''description'' (description e) ''Description is required'' 1000
         ''Description must be less than 1000 characters''
     @ required_maxlength ''overview'' (overview e) ''Overview is required'' 500
         ''Overview must be less than 500 characters''
     @ required ''image'' (image_url e) ''Image URL is required''
     @ required ''venue'' (venue e) ''Venue is required''
     @ required ''location'' (location e) ''Location is required''
     @ required ''date'' (date e) ''Date is required''
     @ required ''time'' (time e) ''Time is required''
     @ validate_mode (mode e)
     @ required ''audience'' (audience e) ''Audience is required''
     @ validate_nonempty ''agenda'' (agenda e) ''Agenda must have at least one item''
     @ required ''organizer'' (organizer e) ''Organizer is required''
     @ validate_nonempty ''tags'' (tags e) ''There must be at least one tag''"

text \<open>
  The error of a failed validation: its name is "ValidationError", its message lists
  every path with its message.
\<close>

fun join :: "string \<Rightarrow> string list \<Rightarrow> string" where
  "join sep [] = []"
| "join sep [x] = x"
| "join sep (x # y # ys) = x @ sep @ join sep (y # ys)"

definition ValidationError :: "(string \<times> string) list \<Rightarrow> js_exn" where
  "ValidationError errs =
     Exn ''ValidationError''
       (''Event validation failed: '' @ join '', '' (map (\<lambda>(path, msg). path @ '': '' @ msg) errs))"

subsection \<open>The hook before a save\<close>

text \<open>Assigning to \<open>slug\<close> runs the setters of the path.\<close>

definition set_slug :: "string \<Rightarrow> event \<Rightarrow> event" where
  "set_slug v e = e\<lparr>slug := slug_setter v\<rparr>"

text \<open>
  \<open>EventSchema.pre("save")\<close>. A normalizer that throws ends the hook with that error;
  otherwise the hook calls \<open>next()\<close> and the document goes on to the write.
\<close>

definition pre_save :: "(string \<Rightarrow> int option) \<Rightarrow> event document \<Rightarrow> js_exn + event document" where
  "pre_save host d =
     (let d1 = (if isModified d ''title'' \<or> isNew d
                then d\<lparr>content := set_slug (generateSlug (title (content d))) (content d)\<rparr> else d)
      in case (if isModified d1 ''date''
               then (case normalizeDate host (date (content d1)) of
                       Inl err \<Rightarrow> Inl err
                     | Inr v \<Rightarrow> Inr (d1\<lparr>content := (content d1)\<lparr>date := v\<rparr>\<rparr>))
               else Inr d1) of
           Inl err \<Rightarrow> Inl err
         | Inr d2 \<Rightarrow>
             (if isModified d2 ''time''
              then (case normalizeTime (time (content d2)) of
                      Inl err \<Rightarrow> Inl err
                    | Inr v \<Rightarrow> Inr (d2\<lparr>content := (content d2)\<lparr>time := v\<rparr>\<rparr>))
              else Inr d2))"

text \<open>
  \<open>save()\<close> up to the write: the validation runs first, then the hook; \<open>Inr\<close> is the
  event handed to the storage. The parameter is the host of \<open>Date.parse\<close>.
\<close>

definition save_event :: "(string \<Rightarrow> int option) \<Rightarrow> event document \<Rightarrow> js_exn + event" where
  "save_event host d =
     (if validate_event (content d) \<noteq> [] then Inl (ValidationError (validate_event (content d)))
      else (case pre_save host d of Inl err \<Rightarrow> Inl err | Inr d' \<Rightarrow> Inr (content d')))"

section \<open>The storage\<close>

text \<open>
  The document store behind the \<open>Event\<close> model: its collection, the failure (if any) each
  kind of call meets, and the log of the queries made. Every query returns its result and
  the storage with the query logged.
\<close>

datatype query = FindOne string | FindById objectId | Find objectId "string list"

record storage =
  connect_failure :: "js_exn option"
  findOne_failure :: "js_exn option"
  findById_failure :: "js_exn option"
  find_failure :: "js_exn option"
  collection :: "event list"
  queries :: "query list"

definition connectDB :: "storage \<Rightarrow> js_exn + unit" where
  "connectDB st = (case connect_failure st of Some err \<Rightarrow> Inl err | None \<Rightarrow> Inr ())"

text \<open>
  \<open>Event.findOne({ slug })\<close>: the first event with that slug, or null. The value given for
  the \<open>slug\<close> path of the filter is cast as a value assigned to the path is: the setters of
  the path, \<open>lowercase\<close> and \<open>trim\<close>, run on it, and the query is made with what they leave.
\<close>

definition Event_findOne :: "storage \<Rightarrow> string \<Rightarrow> (js_exn + event option) \<times> storage" where
  "Event_findOne st key =
     ((case findOne_failure st of
         Some err \<Rightarrow> Inl err
       | None \<Rightarrow> Inr (List.find (\<lambda>e. slug e = slug_setter key) (collection st))),
      st\<lparr>queries := queries st @ [FindOne (slug_setter key)]\<rparr>)"

text \<open>\<open>Event.findById(id)\<close>: the event with that identifier, or null.\<close>

definition Event_findById :: "storage \<Rightarrow> objectId \<Rightarrow> (js_exn + event option) \<times> storage" where
  "Event_findById st i =
     ((case findById_failure st of
         Some err \<Rightarrow> Inl err
       | None \<Rightarrow> Inr (List.find (\<lambda>e. doc_id e = i) (collection st))),
      st\<lparr>queries := queries st @ [FindById i]\<rparr>)"

text \<open>
  \<open>Event.find({ _id: { $ne: i }, tags: { $in: ts } })\<close>: the events whose identifier is
  not \<open>i\<close> and whose tags hold one of \<open>ts\<close> at least, in the order of the collection.
\<close>

definition shares_tag :: "string list \<Rightarrow> event \<Rightarrow> bool" where
  "shares_tag ts e = list_ex (\<lambda>t. t \<in> set ts) (tags e)"

definition Event_find :: "storage \<Rightarrow> objectId \<Rightarrow> string list \<Rightarrow> (js_exn + event list) \<times> storage" where
  "Event_find st i ts =
     ((case find_failure st of
         Some err \<Rightarrow> Inl err
       | None \<Rightarrow> Inr (filter (\<lambda>e. doc_id e \<noteq> i \<and> shares_tag ts e) (collection st))),
      st\<lparr>queries := queries st @ [Find i ts]\<rparr>)"

section \<open>The Booking entity\<close>

text \<open>The fields of \<open>IBooking\<close> (without the timestamps); \<open>eventId\<close> is an \<open>ObjectId\<close>.\<close>

record booking =
  eventId :: objectId
  email :: string

text \<open>
  \<open>BookingSchema.pre("save")\<close>. The result is what the hook passes to \<open>next\<close>: an error,
  which fails the write, or nothing.
\<close>

definition booking_pre_save :: "storage \<Rightarrow> booking document \<Rightarrow> js_exn option \<times> storage" where
  "booking_pre_save st b =
     (if isModified b ''eventId''
      then (case Event_findById st (eventId (content b)) of
              (Inl err, st') \<Rightarrow>
                (Some (Exn ''ValidationError'' ''Invalid event ID format or database error''), st')
            | (Inr None, st') \<Rightarrow>
                (Some (Exn ''ValidationError''
                   (''Event with ID '' @ toHexString (eventId (content b)) @ '' does not exist'')), st')
            | (Inr (Some ev), st') \<Rightarrow> (None, st'))
      else (None, st))"

section \<open>The query helpers\<close>

text \<open>
  The body of the \<open>try\<close> block of \<open>getSimilarEventsBySlug\<close>. Reading \<open>_id\<close> of null
  throws a TypeError.
\<close>

definition similar_try :: "storage \<Rightarrow> string \<Rightarrow> (js_exn + event list) \<times> storage" where
  "similar_try st key =
     (case connectDB st of
        Inl err \<Rightarrow> (Inl err, st)
      | Inr u \<Rightarrow>
          (case Event_findOne st key of
             (Inl err, st1) \<Rightarrow> (Inl err, st1)
           | (Inr None, st1) \<Rightarrow>
               (Inl (Exn ''TypeError'' ''Cannot read properties of null''), st1)
           | (Inr (Some ev), st1) \<Rightarrow> Event_find st1 (doc_id ev) (tags ev)))"

text \<open>The whole function: \<open>catch\<close> returns the empty array for whatever was thrown.\<close>

definition getSimilarEventsBySlug :: "storage \<Rightarrow> string \<Rightarrow> (js_exn + event list) \<times> storage" where
  "getSimilarEventsBySlug st key =
     (case similar_try st key of
        (Inl err, st') \<Rightarrow> (Inr [], st')
      | (Inr evs, st') \<Rightarrow> (Inr evs, st'))"

section \<open>The handler of GET /api/events/[slug]\<close>

text \<open>The route parameter: absent, a value that is not a string, or a string.\<close>

datatype route_param = Missing | NotAString | Param string

record response =
  status :: nat
  message :: string
  event_of :: "event option"
  error_of :: "string option"

definition json :: "nat \<Rightarrow> string \<Rightarrow> response" where
  "json st msg = \<lparr>status = st, message = msg, event_of = None, error_of = None\<rparr>"

text \<open>\<open>s.includes(sub)\<close>.\<close>

definition includes_str :: "string \<Rightarrow> string \<Rightarrow> bool" where
  "includes_str s sub = list_ex (\<lambda>i. take (length sub) (drop i s) = sub) [0..<Suc (length s)]"

definition GET_catch :: "js_exn \<Rightarrow> response" where
  "GET_catch e =
     (case e of
        Exn n m \<Rightarrow>
          (if includes_str m ''MONGODB_URI'' then json 500 ''Database connection error''
           else (json 500 ''Event fetching failed'')\<lparr>error_of := Some m\<rparr>)
      | NonErrorThrown \<Rightarrow> json 500 ''An unexpected error occurred'')"

text \<open>
  The guard \<open>!slug || typeof slug !== "string" || slug.trim() === ""\<close>, and the string a
  parameter that passes it holds.
\<close>

definition blank_param :: "route_param \<Rightarrow> bool" where
  "blank_param p = (case p of Missing \<Rightarrow> True | NotAString \<Rightarrow> True | Param s \<Rightarrow> s = [] \<or> trim s = [])"

definition param_string :: "route_param \<Rightarrow> string" where
  "param_string p = (case p of Param s \<Rightarrow> s | Missing \<Rightarrow> [] | NotAString \<Rightarrow> [])"

text \<open>
  The handler (the logging of the error in development mode is left out). The connection
  is made first, inside the \<open>try\<close> block; the parameter is looked at after it.
\<close>

definition GET :: "storage \<Rightarrow> route_param \<Rightarrow> response \<times> storage" where
  "GET st p =
     (case connectDB st of
        Inl err \<Rightarrow> (GET_catch err, st)
      | Inr u \<Rightarrow>
          (if blank_param p then (json 400 ''Invalid or missing slug parameter'', st)
           else (case Event_findOne st (toLowerCase (trim (param_string p))) of
                   (Inl err, st') \<Rightarrow> (GET_catch err, st')
                 | (Inr None, st') \<Rightarrow> (json 404 ''Event not found'', st')
                 | (Inr (Some ev), st') \<Rightarrow>
                     ((json 200 ''Event fetched successfully'')\<lparr>event_of := Some ev\<rparr>, st'))))"

section \<open>Sample data\<close>

text \<open>
  Identifiers, an event with every field valid, a storage that holds events, and
  documents of them.
\<close>

definition hello_id :: objectId where
  "hello_id = ObjectId (CHR 0x65) (CHR 0xE6) (CHR 0xF0) (CHR 0xA1) (CHR 0xB2) (CHR 0xC3)
     (CHR 0xD4) (CHR 0xE5) (CHR 0xF6) (CHR 0xA7) (CHR 0xB8) (CHR 0xC9)"

definition next_id :: objectId where
  "next_id = ObjectId (CHR 0x65) (CHR 0xE6) (CHR 0xF0) (CHR 0xA1) (CHR 0xB2) (CHR 0xC3)
     (CHR 0xD4) (CHR 0xE5) (CHR 0xF6) (CHR 0xA7) (CHR 0xB8) (CHR 0xCA)"

definition rust_id :: objectId where
  "rust_id = ObjectId (CHR 0x65) (CHR 0xE6) (CHR 0xF0) (CHR 0xA1) (CHR 0xB2) (CHR 0xC3)
     (CHR 0xD4) (CHR 0xE5) (CHR 0xF6) (CHR 0xA7) (CHR 0xB8) (CHR 0xCB)"

definition absent_id :: objectId where
  "absent_id = ObjectId (CHR 0x65) (CHR 0xE6) (CHR 0xF0) (CHR 0xA1) (CHR 0xB2) (CHR 0xC3)
     (CHR 0xD4) (CHR 0xE5) (CHR 0xF6) (CHR 0xA7) (CHR 0xB8) (CHR 0xCF)"

definition sample_event :: event where
  "sample_event =
     \<lparr>doc_id = hello_id, title = ''Hello, World! 2024'', slug = [],
      description = ''An evening of talks'', overview = ''Three talks'',
      image_url = ''https://example.org/hello.png'', venue = ''Hall 1'', location = ''Lyon'',
      date = ''2024-03-05'', time = ''10:00'', mode = ''offline'', audience = ''Developers'',
      agenda = [''Opening'', ''Talks''], organizer = ''ACME'', tags = [''web'', ''next'']\<rparr>"

definition new_document :: "'a \<Rightarrow> string list \<Rightarrow> 'a document" where
  "new_document c paths = \<lparr>content = c, isNew = True, modifiedPaths = paths\<rparr>"

definition loaded_document :: "'a \<Rightarrow> string list \<Rightarrow> 'a document" where
  "loaded_document c paths = \<lparr>content = c, isNew = False, modifiedPaths = paths\<rparr>"

definition event_paths :: "string list" where
  "event_paths = [''title'', ''description'', ''overview'', ''image'', ''venue'', ''location'',
     ''date'', ''time'', ''mode'', ''audience'', ''agenda'', ''organizer'', ''tags'']"

definition stored_hello :: event where
  "stored_hello = sample_event\<lparr>slug := ''hello-world-2024''\<rparr>"

definition stored_next :: event where
  "stored_next = sample_event\<lparr>doc_id := next_id, title := ''Next Conf'',
     slug := ''next-conf'', tags := [''next'', ''react'']\<rparr>"

definition stored_rust :: event where
  "stored_rust = sample_event\<lparr>doc_id := rust_id, title := ''Rust Day'',
     slug := ''rust-day'', tags := [''rust'']\<rparr>"

definition sample_storage :: storage where
  "sample_storage =
     \<lparr>connect_failure = None, findOne_failure = None, findById_failure = None,
      find_failure = None, collection = [stored_hello, stored_next, stored_rust], queries = []\<rparr>"

definition unconfigured_storage :: storage where
  "unconfigured_storage =
     sample_storage\<lparr>connect_failure :=
       Some (new_Error ''Please define the MONGODB_URI environment variable'')\<rparr>"

definition failing_findOne_storage :: storage where
  "failing_findOne_storage = sample_storage\<lparr>findOne_failure := Some (new_Error ''connection lost'')\<rparr>"

definition failing_findById_storage :: storage where
  "failing_findById_storage = sample_storage\<lparr>findById_failure := Some (new_Error ''connection lost'')\<rparr>"

definition failing_find_storage :: storage where
  "failing_find_storage = sample_storage\<lparr>find_failure := Some (new_Error ''connection lost'')\<rparr>"

definition booking_of :: "objectId \<Rightarrow> booking" where
  "booking_of i = \<lparr>eventId = i, email = ''ada@example.org''\<rparr>"

section \<open>Properties of the identifier normalizer\<close>

subsection \<open>The code computes the slug of the specification\<close>

lemma replace_each_filter: "replace_each (\<lambda>c. \<not> P c) [] s = filter P s"
  by (induction s) (auto simp: replace_each_def)

lemma collapse_runs_in:
  "P c \<Longrightarrow> map (\<lambda>x. if P x then h else x) (collapse_runs P (c # cs))
     = h # map (\<lambda>x. if P x then h else x) (collapse_runs P (dropWhile P cs))"
  by (induction cs arbitrary: c) auto

lemma collapse_runs_out: "\<not> P c \<Longrightarrow> collapse_runs P (c # cs) = c # collapse_runs P cs"
  by (cases cs) auto

lemma replace_runs_collapse:
  "replace_runs P [h] s = map (\<lambda>x. if P x then h else x) (collapse_runs P s)"
proof (induction P "[h]" s rule: replace_runs.induct)
  case (1 P)
  show ?case by simp
next
  case (2 P c cs)
  show ?case
  proof (cases "P c")
    case True
    with 2 show ?thesis by (simp add: collapse_runs_in)
  next
    case False
    with 2 show ?thesis by (simp add: collapse_runs_out)
  qed
qed

lemma replace_runs_hyphen: "replace_runs isHyphen ''-'' s = collapse_runs isHyphen s"
proof -
  have "map (\<lambda>x. if isHyphen x then hyphen else x) xs = xs" for xs
    by (induction xs) (auto simp: isHyphen_def)
  moreover have "''-'' = [hyphen]" by (simp add: hyphen_def)
  ultimately show ?thesis by (simp add: replace_runs_collapse)
qed

lemma replace_runs_space: "replace_runs isWhiteSpace ''-'' s = spec_whitespace_to_hyphens s"
proof -
  have "''-'' = [hyphen]" by (simp add: hyphen_def)
  then show ?thesis by (simp add: replace_runs_collapse spec_whitespace_to_hyphens_def)
qed

lemma no_adj_Cons:
  "no_adjacent_hyphens (c # cs) = (no_adjacent_hyphens cs \<and> (cs = [] \<or> \<not> (c = hyphen \<and> hd cs = hyphen)))"
  by (cases cs) auto

lemma no_adj_append:
  "no_adjacent_hyphens (xs @ ys) =
     (no_adjacent_hyphens xs \<and> no_adjacent_hyphens ys \<and>
      (xs = [] \<or> ys = [] \<or> \<not> (last xs = hyphen \<and> hd ys = hyphen)))"
  by (induction xs rule: no_adjacent_hyphens.induct) (auto simp: no_adj_Cons)

lemma no_adj_rev: "no_adjacent_hyphens (rev s) = no_adjacent_hyphens s"
  by (induction s) (auto simp: no_adj_append no_adj_Cons hd_rev last_rev)

lemma no_adj_collapse: "no_adjacent_hyphens (collapse_runs isHyphen s)"
  by (induction isHyphen s rule: collapse_runs.induct)
     (auto simp: isHyphen_def no_adj_Cons collapse_runs_out)

lemma dropWhile_one:
  "no_adjacent_hyphens s \<Longrightarrow>
   dropWhile isHyphen s = (case s of [] \<Rightarrow> [] | c # cs \<Rightarrow> if c = hyphen then cs else s)"
  by (cases s rule: no_adjacent_hyphens.cases) (auto simp: isHyphen_def)

lemma no_adj_dropWhile: "no_adjacent_hyphens s \<Longrightarrow> no_adjacent_hyphens (dropWhile P s)"
  by (induction s) (auto simp: no_adj_Cons)

lemma edge_is_strip:
  assumes "no_adjacent_hyphens s"
  shows "replace_edge_hyphens s = spec_strip_hyphens s"
proof -
  define s1 where "s1 = dropWhile isHyphen s"
  have s1: "s1 = (case s of [] \<Rightarrow> [] | c # cs \<Rightarrow> if c = hyphen then cs else s)"
    unfolding s1_def using assms by (rule dropWhile_one)
  have na: "no_adjacent_hyphens (rev s1)"
    unfolding s1_def using assms by (simp add: no_adj_rev no_adj_dropWhile)
  have "rev (dropWhile isHyphen (rev s1)) = (if s1 \<noteq> [] \<and> last s1 = hyphen then butlast s1 else s1)"
  proof (cases "s1 = []")
    case True
    then show ?thesis by simp
  next
    case False
    then have r: "s1 = butlast s1 @ [last s1]" by simp
    show ?thesis
    proof (cases "last s1 = hyphen")
      case True
      have "no_adjacent_hyphens (butlast s1 @ [last s1])" using na r by (simp add: no_adj_rev)
      then have b: "butlast s1 = [] \<or> last (butlast s1) \<noteq> hyphen"
        using True by (auto simp: no_adj_append)
      have "dropWhile isHyphen (rev s1) = dropWhile isHyphen (last s1 # rev (butlast s1))"
        using r by (metis rev_append append_Cons append_Nil singleton_rev_conv)
      also have "\<dots> = dropWhile isHyphen (rev (butlast s1))"
        using True by (simp add: isHyphen_def)
      also have "\<dots> = rev (butlast s1)"
        using b by (cases "rev (butlast s1)") (auto simp: isHyphen_def last_rev hd_rev dest: arg_cong[where f=hd])
      finally show ?thesis using True False by simp
    next
      case F2: False
      have "dropWhile isHyphen (rev s1) = rev s1"
        using False F2 by (cases "rev s1") (auto simp: isHyphen_def dest: arg_cong[where f=hd] simp: hd_rev)
      then show ?thesis using F2 by simp
    qed
  qed
  then show ?thesis
    unfolding replace_edge_hyphens_def spec_strip_hyphens_def s1[symmetric] s1_def[symmetric]
    by (simp add: Let_def)
qed

lemma generateSlug_spec: "generateSlug t = spec_slug t"
  unfolding generateSlug_def spec_slug_def
  by (simp add: replace_runs_hyphen replace_runs_space replace_each_filter edge_is_strip no_adj_collapse)

lemma set_collapse_runs: "set (collapse_runs P s) \<subseteq> set s"
  by (induction P s rule: collapse_runs.induct) auto

lemma set_spec_strip: "set (spec_strip_hyphens s) \<subseteq> set s"
  unfolding spec_strip_hyphens_def
  by (metis set_rev set_dropWhileD subsetI)

lemma slug_char_whitespace_to_hyphens:
  "list_all slug_class s \<Longrightarrow> list_all slug_char (spec_whitespace_to_hyphens s)"
  using set_collapse_runs[of isWhiteSpace s]
  by (auto simp: spec_whitespace_to_hyphens_def list_all_iff slug_class_def slug_char_def)

lemma slug_chars: "list_all slug_char (spec_slug t)"
proof -
  have "list_all slug_class (filter slug_class (trim (toLowerCase t)))"
    by (simp add: list_all_iff)
  then have "list_all slug_char (spec_whitespace_to_hyphens (filter slug_class (trim (toLowerCase t))))"
    by (rule slug_char_whitespace_to_hyphens)
  then show ?thesis
    unfolding spec_slug_def list_all_iff
    using set_collapse_runs set_spec_strip by blast
qed

lemma no_edge_strip: "no_edge_hyphen (spec_strip_hyphens s)"
proof -
  define x where "x = dropWhile isHyphen s"
  define y where "y = dropWhile isHyphen (rev x)"
  have hx: "x = [] \<or> \<not> isHyphen (hd x)" unfolding x_def by (metis hd_dropWhile)
  have hy: "y = [] \<or> \<not> isHyphen (hd y)" unfolding y_def by (metis hd_dropWhile)
  obtain p where p: "rev x = p @ y" unfolding y_def by (metis takeWhile_dropWhile_id)
  have xy: "x = rev y @ rev p" using p by (metis rev_append rev_rev_ident)
  have "rev y = [] \<or> (hd (rev y) \<noteq> hyphen \<and> last (rev y) \<noteq> hyphen)"
  proof (cases "y = []")
    case True then show ?thesis by simp
  next
    case False
    then have "hd (rev y) = hd x" using xy by simp
    moreover have "x \<noteq> []" using xy False by simp
    ultimately show ?thesis using hx hy False by (simp add: isHyphen_def last_rev)
  qed
  then show ?thesis
    unfolding no_edge_hyphen_def spec_strip_hyphens_def x_def[symmetric] y_def[symmetric] .
qed

lemma no_adj_strip: "no_adjacent_hyphens s \<Longrightarrow> no_adjacent_hyphens (spec_strip_hyphens s)"
  by (simp add: spec_strip_hyphens_def no_adj_rev no_adj_dropWhile)

lemma canonical_spec_slug: "canonical_slug (spec_slug t)"
proof -
  have "no_edge_hyphen (spec_slug t)" unfolding spec_slug_def by (rule no_edge_strip)
  moreover have "no_adjacent_hyphens (spec_slug t)"
    unfolding spec_slug_def by (simp add: no_adj_strip no_adj_collapse)
  ultimately show ?thesis unfolding canonical_slug_def by (simp add: slug_chars)
qed

lemma slug_char_lower: "slug_char c \<Longrightarrow> toLowerCase_char c = c"
  by (auto simp: slug_char_def toLowerCase_char_def isLowerAZ_def isDigit_def hyphen_def code_def)

lemma slug_char_not_space: "slug_char c \<Longrightarrow> \<not> isWhiteSpace c"
  by (auto simp: slug_char_def isWhiteSpace_def isLowerAZ_def isDigit_def hyphen_def code_def)

lemma slug_char_class: "slug_char c \<Longrightarrow> slug_class c"
  by (auto simp: slug_char_def slug_class_def)

lemma dropWhile_none: "\<forall>c\<in>set s. \<not> P c \<Longrightarrow> dropWhile P s = s"
  by (cases s) auto

lemma collapse_runs_none: "\<forall>c\<in>set s. \<not> P c \<Longrightarrow> collapse_runs P s = s"
  by (induction P s rule: collapse_runs.induct) auto

lemma collapse_runs_no_adj: "no_adjacent_hyphens s \<Longrightarrow> collapse_runs isHyphen s = s"
  by (induction s rule: no_adjacent_hyphens.induct) (auto simp: isHyphen_def)

lemma strip_no_edge: "no_edge_hyphen s \<Longrightarrow> spec_strip_hyphens s = s"
proof (cases "s = []")
  case True then show ?thesis by (simp add: spec_strip_hyphens_def)
next
  case False
  assume "no_edge_hyphen s"
  with False have h: "hd s \<noteq> hyphen" and l: "last s \<noteq> hyphen" by (auto simp: no_edge_hyphen_def)
  have 1: "dropWhile isHyphen s = s" using False h by (cases s) (auto simp: isHyphen_def)
  have 2: "dropWhile isHyphen (rev s) = rev s"
    using False l by (cases "rev s") (auto simp: isHyphen_def hd_rev dest: arg_cong[where f=hd])
  show ?thesis by (simp add: spec_strip_hyphens_def 1 2)
qed

lemma spec_slug_canonical_id:
  assumes "canonical_slug s"
  shows "spec_slug s = s"
proof -
  from assms have ch: "\<forall>c\<in>set s. slug_char c" and ne: "no_edge_hyphen s" and na: "no_adjacent_hyphens s"
    by (auto simp: canonical_slug_def list_all_iff)
  have 1: "toLowerCase s = s" unfolding toLowerCase_def using ch by (simp add: map_idI slug_char_lower)
  have nsp: "\<forall>c\<in>set s. \<not> isWhiteSpace c" using ch slug_char_not_space by blast
  have 2: "trim s = s" unfolding trim_def using nsp by (simp add: dropWhile_none)
  have 3: "filter slug_class s = s" using ch slug_char_class by (simp add: filter_id_conv)
  have 4: "spec_whitespace_to_hyphens s = s"
    unfolding spec_whitespace_to_hyphens_def using nsp by (simp add: collapse_runs_none map_idI)
  show ?thesis
    unfolding spec_slug_def by (simp add: 1 2 3 4 collapse_runs_no_adj[OF na] strip_no_edge[OF ne])
qed

lemma generateSlug_canonical: "canonical_slug (generateSlug t)"
  by (simp add: generateSlug_spec canonical_spec_slug)

lemma generateSlug_fixes_canonical: "canonical_slug s \<Longrightarrow> generateSlug s = s"
  by (simp add: generateSlug_spec spec_slug_canonical_id)

text \<open>
  Claim C5. The identifier normalizer is idempotent: on a canonical slug (only characters
  of \<open>[a-z0-9-]\<close>, no hyphen at either end, no two hyphens in a row) it returns its
  argument, so normalizing twice is normalizing once; and for every title its result is
  canonical in that sense.
\<close>

theorem generateSlug_canonical_idempotent:
  "list_all slug_char (generateSlug t) \<and> no_edge_hyphen (generateSlug t)
   \<and> no_adjacent_hyphens (generateSlug t)
   \<and> (canonical_slug s \<longrightarrow> generateSlug s = s)
   \<and> generateSlug (generateSlug t) = generateSlug t"
proof -
  have c: "canonical_slug (generateSlug t)" by (rule generateSlug_canonical)
  then have "generateSlug (generateSlug t) = generateSlug t" by (rule generateSlug_fixes_canonical)
  then show ?thesis using c generateSlug_fixes_canonical[of s] by (simp add: canonical_slug_def)
qed

theorem generateSlug_canonical_idempotent_witness:
  "canonical_slug ''hello-world-2024''
   \<and> generateSlug ''hello-world-2024'' = ''hello-world-2024''
   \<and> generateSlug ''  --Next.js  Conf--2025!  '' = ''nextjs-conf-2025''
   \<and> no_edge_hyphen (generateSlug ''  --Next.js  Conf--2025!  '')"
proof -
  have c: "canonical_slug ''hello-world-2024''" by code_simp
  have e: "generateSlug ''  --Next.js  Conf--2025!  '' = ''nextjs-conf-2025''" by code_simp
  from generateSlug_canonical_idempotent[of "''  --Next.js  Conf--2025!  ''" "''hello-world-2024''"] c e
  show ?thesis by simp
qed

section \<open>What the time normalizer returns\<close>

text \<open>
  Claim C1. On "2:30 PM" the time normalizer returns "02:PM", not "14:30": \<open>match[2]\<close>,
  which the code takes for the minutes, is the suffix group, and \<open>match[4]\<close>, which it
  takes for the suffix, is beyond the match array, so no conversion to 24-hour form ever
  happens and the minutes are never in the result. Likewise "12:00 AM" gives "12:AM",
  "12:00 PM" gives "12:PM" and "23:59" gives "23:undefined".
\<close>

theorem normalizeTime_loses_minutes_and_suffix:
  "normalizeTime ''2:30 PM'' = Inr ''02:PM''
   \<and> normalizeTime ''12:00 AM'' = Inr ''12:AM''
   \<and> normalizeTime ''12:00 PM'' = Inr ''12:PM''
   \<and> normalizeTime ''23:59'' = Inr ''23:undefined''"
  by code_simp

text \<open>
  Claim C2. A string that does not match is rejected ("9:5"), and so is an hour above 23
  ("25:00", with the message of the range check); but minutes above 59 are accepted
  ("12:75" gives "12:undefined"), and so is an hour that the conversion to 24-hour form
  would take out of range ("13:00 PM" gives "13:PM"): the range check reads \<open>parseInt\<close>
  of the suffix group, which is NaN.
\<close>

theorem normalizeTime_accepts_minutes_out_of_range:
  "normalizeTime ''12:75'' = Inr ''12:undefined''
   \<and> normalizeTime ''13:00 PM'' = Inr ''13:PM''
   \<and> normalizeTime ''9:5'' = Inl (new_Error ''Invalid time format, expected HH:MM with optional AM/PM'')
   \<and> normalizeTime ''25:00'' = Inl (new_Error ''Time must be between 00:00 and 23:59'')"
  by code_simp

section \<open>Properties of the date normalizer\<close>

subsection \<open>The year, the month and the day of a time value\<close>



















subsection \<open>The date portion of the ISO representation\<close>





















section \<open>Properties of the Event entity\<close>

subsection \<open>The setters of the slug\<close>

lemma code_char_of: "n < 256 \<Longrightarrow> code (char_of n) = n"
  by (simp add: code_def)

lemma toLowerCase_char_space: "isWhiteSpace (toLowerCase_char c) = isWhiteSpace c"
proof -
  have "code c < 256" by (simp add: code_def)
  then show ?thesis
    by (auto simp: toLowerCase_char_def isWhiteSpace_def code_char_of)
qed

lemma toLowerCase_char_idem: "toLowerCase_char (toLowerCase_char c) = toLowerCase_char c"
proof -
  have "code c < 256" by (simp add: code_def)
  then show ?thesis
    by (auto simp: toLowerCase_char_def code_char_of)
qed

lemma toLowerCase_idem: "toLowerCase (toLowerCase s) = toLowerCase s"
  by (simp add: toLowerCase_def toLowerCase_char_idem)

lemma dropWhile_space_lower:
  "dropWhile isWhiteSpace (map toLowerCase_char s) = map toLowerCase_char (dropWhile isWhiteSpace s)"
  by (induction s) (auto simp: toLowerCase_char_space)

text \<open>The two setters commute: the order in which they run does not matter.\<close>

lemma trim_toLowerCase: "trim (toLowerCase s) = toLowerCase (trim s)"
  unfolding trim_def toLowerCase_def
  by (simp add: dropWhile_space_lower rev_map)

lemma trim_idem: "trim (trim s) = trim s"
proof -
  define x where "x = dropWhile isWhiteSpace s"
  define y where "y = dropWhile isWhiteSpace (rev x)"
  have t: "trim s = rev y" by (simp add: trim_def x_def y_def)
  have hy: "y = [] \<or> \<not> isWhiteSpace (hd y)" unfolding y_def by (metis hd_dropWhile)
  have hx: "x = [] \<or> \<not> isWhiteSpace (hd x)" unfolding x_def by (metis hd_dropWhile)
  obtain p where p: "rev x = p @ y" unfolding y_def by (metis takeWhile_dropWhile_id)
  have xy: "x = rev y @ rev p" using p by (metis rev_append rev_rev_ident)
  have 1: "dropWhile isWhiteSpace (rev y) = rev y"
  proof (cases "y = []")
    case True then show ?thesis by simp
  next
    case False
    then have "hd (rev y) = hd x" "x \<noteq> []" using xy by simp_all
    then have "\<not> isWhiteSpace (hd (rev y))" using hx by simp
    then show ?thesis using False by (cases "rev y") auto
  qed
  have 2: "dropWhile isWhiteSpace y = y" using hy by (cases y) auto
  show ?thesis unfolding t by (simp add: trim_def 1 2)
qed

text \<open>A slug that was trimmed and lower-cased is what the setters leave of it.\<close>

lemma slug_setter_sanitized: "slug_setter (toLowerCase (trim s)) = toLowerCase (trim s)"
  by (simp add: slug_setter_def toLowerCase_idem trim_toLowerCase[symmetric] trim_idem)

lemma slug_setter_canonical: "canonical_slug s \<Longrightarrow> slug_setter s = s"
proof -
  assume c: "canonical_slug s"
  then have ch: "\<forall>c\<in>set s. slug_char c" by (simp add: canonical_slug_def list_all_iff)
  have 1: "toLowerCase s = s" unfolding toLowerCase_def using ch by (simp add: map_idI slug_char_lower)
  have "\<forall>c\<in>set s. \<not> isWhiteSpace c" using ch slug_char_not_space by blast
  then have 2: "trim s = s" unfolding trim_def by (simp add: dropWhile_none)
  show ?thesis by (simp add: slug_setter_def 1 2)
qed

subsection \<open>The slug of a saved event\<close>

lemma set_slug_canonical: "canonical_slug s \<Longrightarrow> set_slug s e = e\<lparr>slug := s\<rparr>"
  by (simp add: set_slug_def slug_setter_canonical)

lemma pre_save_slug:
  assumes "isNew d \<or> isModified d ''title''" and "pre_save parse d = Inr d'"
  shows "slug (content d') = generateSlug (title (content d))"
  using assms
  unfolding pre_save_def Let_def
  by (auto simp: set_slug_canonical[OF generateSlug_canonical] isModified_def split: if_splits sum.splits)

lemma save_event_slug:
  assumes "isNew d \<or> isModified d ''title''" and "save_event parse d = Inr ev"
  shows "slug ev = generateSlug (title (content d))"
  using assms pre_save_slug[of d parse]
  by (auto simp: save_event_def split: if_splits sum.splits)

lemma validate_event_slug: "validate_event (e\<lparr>slug := s\<rparr>) = validate_event e"
  by (simp add: validate_event_def)

lemma set_trim: "set (trim s) \<subseteq> set s"
  unfolding trim_def by (metis set_rev set_dropWhileD subsetI)

lemma strip_all_hyphens: "\<forall>c\<in>set s. isHyphen c \<Longrightarrow> spec_strip_hyphens s = []"
proof -
  assume "\<forall>c\<in>set s. isHyphen c"
  then have "dropWhile isHyphen s = []" by (induction s) auto
  then show ?thesis unfolding spec_strip_hyphens_def by (simp del: dropWhile_eq_Nil_conv)
qed

lemma generateSlug_empty:
  assumes "list_all (\<lambda>c. \<not> isLowerAZ c \<and> \<not> isDigit c) (toLowerCase t)"
  shows "generateSlug t = []"
proof -
  define a where "a = filter slug_class (trim (toLowerCase t))"
  have "\<forall>c\<in>set a. isWhiteSpace c \<or> c = hyphen"
    using assms set_trim[of "toLowerCase t"] by (auto simp: a_def list_all_iff slug_class_def)
  then have "\<forall>c\<in>set (spec_whitespace_to_hyphens a). isHyphen c"
    using set_collapse_runs[of isWhiteSpace a] by (auto simp: spec_whitespace_to_hyphens_def isHyphen_def)
  then have "\<forall>c\<in>set (collapse_runs isHyphen (spec_whitespace_to_hyphens a)). isHyphen c"
    using set_collapse_runs[of isHyphen] by blast
  then show ?thesis
    unfolding generateSlug_spec spec_slug_def a_def[symmetric] by (rule strip_all_hyphens)
qed

lemma validate_title:
  "validate_event e = [] \<Longrightarrow> title e \<noteq> [] \<and> length (title e) \<le> 100"
  by (auto simp: validate_event_def required_maxlength_def split: if_splits)

text \<open>
  Claim C4. For every title the identifier normalizer returns exactly the slug the
  specification words: lowercased, trimmed, the characters outside \<open>[a-z0-9\s-]\<close>
  removed, whitespace runs collapsed to single hyphens, hyphen runs collapsed to one,
  leading and trailing hyphens stripped. "Hello, World! 2024" gives "hello-world-2024",
  and an event saved with that title, new or with the title modified, is written with
  that slug.
\<close>

theorem generateSlug_is_spec_slug:
  "generateSlug t = spec_slug t
   \<and> generateSlug ''Hello, World! 2024'' = ''hello-world-2024''
   \<and> ((isNew d \<or> isModified d ''title'') \<and> title (content d) = ''Hello, World! 2024''
        \<and> save_event parse d = Inr ev \<longrightarrow> slug ev = ''hello-world-2024'')"
proof -
  have e: "generateSlug ''Hello, World! 2024'' = ''hello-world-2024''" by code_simp
  show ?thesis using e save_event_slug[where d=d and parse=parse and ev=ev] by (auto simp: generateSlug_spec)
qed

theorem generateSlug_is_spec_slug_witness:
  "isNew (new_document sample_event event_paths)
   \<and> title (content (new_document sample_event event_paths)) = ''Hello, World! 2024''
   \<and> (\<exists>ev. save_event parse_east_of_UTC (new_document sample_event event_paths) = Inr ev
          \<and> slug ev = ''hello-world-2024'')"
proof -
  let ?d = "new_document sample_event event_paths"
  have n: "isNew ?d" by (simp add: new_document_def)
  have t: "title (content ?d) = ''Hello, World! 2024''" by (simp add: new_document_def sample_event_def)
  have "\<not> isl (save_event parse_east_of_UTC ?d)" by code_simp
  then obtain ev where s: "save_event parse_east_of_UTC ?d = Inr ev"
    by (cases "save_event parse_east_of_UTC ?d") auto
  from generateSlug_is_spec_slug[where d="?d" and parse=parse_east_of_UTC and ev=ev] n t s
  have "slug ev = ''hello-world-2024''" by blast
  with n t s show ?thesis by blast
qed

text \<open>
  Claim C10, amended. For every title whose lower-cased form has no character of
  \<open>[a-z0-9]\<close> the identifier normalizer returns the empty string, on the title as given
  and on the title trimmed, which is what the document holds; the validation of an event
  does not look at its slug, and it accepts a title when the title the document holds is
  not empty and of 100 characters at most; so an event that passes the validation with
  such a title, new or with the title modified, is written with an empty slug when the
  save goes through. "!!!" is such a title: the sample event with that title passes the
  validation and is written with an empty slug.
\<close>

theorem empty_slug_is_written:
  "(list_all (\<lambda>c. \<not> isLowerAZ c \<and> \<not> isDigit c) (toLowerCase t)
      \<longrightarrow> generateSlug t = [] \<and> generateSlug (trim t) = [])
   \<and> title (apply_setters e) = trim (title e)
   \<and> validate_event (e\<lparr>slug := s\<rparr>) = validate_event e
   \<and> (required_maxlength ''title'' t ''Title is required'' 100
          ''Title must be less than 100 characters'' = []) = (t \<noteq> [] \<and> length t \<le> 100)
   \<and> (validate_event (content d) = [] \<and> (isNew d \<or> isModified d ''title'')
        \<and> list_all (\<lambda>c. \<not> isLowerAZ c \<and> \<not> isDigit c) (toLowerCase (title (content d)))
        \<and> save_event parse d = Inr ev
      \<longrightarrow> title (content d) \<noteq> [] \<and> length (title (content d)) \<le> 100 \<and> slug ev = [])
   \<and> generateSlug ''!!!'' = []
   \<and> validate_event (apply_setters (sample_event\<lparr>title := ''!!!''\<rparr>)) = []
   \<and> (\<exists>ev. save_event parse
               (loaded_document (apply_setters (sample_event\<lparr>title := ''!!!''\<rparr>)) [''title'']) = Inr ev
          \<and> title ev = ''!!!'' \<and> slug ev = [])"
proof -
  let ?e = "apply_setters (sample_event\<lparr>title := ''!!!''\<rparr>)"
  have 0: "?e = sample_event\<lparr>title := ''!!!''\<rparr>" by code_simp
  have 1: "generateSlug ''!!!'' = []" by code_simp
  have 2: "validate_event ?e = []" by code_simp
  have 3: "save_event parse (loaded_document ?e [''title''])
      = Inr (sample_event\<lparr>title := ''!!!'', slug := []\<rparr>)"
    using 1 2 unfolding 0
    by (simp add: save_event_def pre_save_def loaded_document_def isModified_def set_slug_def
        slug_setter_def trim_def toLowerCase_def Let_def sample_event_def)
  have 4: "title (sample_event\<lparr>title := ''!!!'', slug := []\<rparr>) = ''!!!''"
    "slug (sample_event\<lparr>title := ''!!!'', slug := []\<rparr>) = []" by simp_all
  have 5: "validate_event (content d) = [] \<and> (isNew d \<or> isModified d ''title'')
        \<and> list_all (\<lambda>c. \<not> isLowerAZ c \<and> \<not> isDigit c) (toLowerCase (title (content d)))
        \<and> save_event parse d = Inr ev
      \<longrightarrow> title (content d) \<noteq> [] \<and> length (title (content d)) \<le> 100 \<and> slug ev = []"
    using save_event_slug[where d=d and parse=parse and ev=ev] generateSlug_empty[of "title (content d)"]
      validate_title[of "content d"] by auto
  have 6: "list_all (\<lambda>c. \<not> isLowerAZ c \<and> \<not> isDigit c) (toLowerCase t)
      \<longrightarrow> generateSlug t = [] \<and> generateSlug (trim t) = []"
  proof
    assume a: "list_all (\<lambda>c. \<not> isLowerAZ c \<and> \<not> isDigit c) (toLowerCase t)"
    then have "list_all (\<lambda>c. \<not> isLowerAZ c \<and> \<not> isDigit c) (toLowerCase (trim t))"
      using set_trim[of t] by (auto simp: list_all_iff toLowerCase_def)
    then show "generateSlug t = [] \<and> generateSlug (trim t) = []"
      using a by (simp add: generateSlug_empty)
  qed
  have 7: "title (apply_setters e) = trim (title e)" by (simp add: apply_setters_def)
  have 8: "(required_maxlength ''title'' t ''Title is required'' 100
          ''Title must be less than 100 characters'' = []) = (t \<noteq> [] \<and> length t \<le> 100)"
    by (auto simp: required_maxlength_def)
  have 9: "\<exists>ev. save_event parse (loaded_document ?e [''title'']) = Inr ev
          \<and> title ev = ''!!!'' \<and> slug ev = []"
    using 3 4 by blast
  from 6 7 validate_event_slug[where e=e and s=s] 8 5 1 2 9 show ?thesis by blast
qed

theorem empty_slug_is_written_witness:
  "list_all (\<lambda>c. \<not> isLowerAZ c \<and> \<not> isDigit c) (toLowerCase ''  ?! ... !?  '')
   \<and> generateSlug ''  ?! ... !?  '' = []
   \<and> title (apply_setters (sample_event\<lparr>title := ''  ?! ... !?  ''\<rparr>)) = ''?! ... !?''
   \<and> validate_event (apply_setters (sample_event\<lparr>title := ''  ?! ... !?  ''\<rparr>)) = []
   \<and> (\<exists>ev. save_event parse_east_of_UTC
               (new_document (apply_setters (sample_event\<lparr>title := ''  ?! ... !?  ''\<rparr>)) event_paths) = Inr ev
          \<and> slug ev = [])"
proof -
  let ?e = "apply_setters (sample_event\<lparr>title := ''  ?! ... !?  ''\<rparr>)"
  let ?d = "new_document ?e event_paths"
  have a: "list_all (\<lambda>c. \<not> isLowerAZ c \<and> \<not> isDigit c) (toLowerCase ''  ?! ... !?  '')" by code_simp
  have t: "title ?e = ''?! ... !?''" by code_simp
  have a': "list_all (\<lambda>c. \<not> isLowerAZ c \<and> \<not> isDigit c) (toLowerCase (title ?e))"
    unfolding t by code_simp
  have v: "validate_event ?e = []" by code_simp
  have c: "content ?d = ?e" "isNew ?d" by (simp_all add: new_document_def)
  have "\<not> isl (save_event parse_east_of_UTC ?d)" by code_simp
  then obtain ev where s: "save_event parse_east_of_UTC ?d = Inr ev"
    by (cases "save_event parse_east_of_UTC ?d") auto
  note th = empty_slug_is_written[where t="''  ?! ... !?  ''" and d="?d" and parse=parse_east_of_UTC and ev=ev]
  from th a have g: "generateSlug ''  ?! ... !?  '' = []" by blast
  from th a' v c s have e: "slug ev = []" by simp
  from a g t v s e show ?thesis by blast
qed

text \<open>
  The claim as stated speaks of the titles with no character of \<open>[a-z0-9]\<close>: "A" is one,
  it passes the validation, and its slug is "a", since the title is lower-cased first.
\<close>

theorem uppercase_title_counterexample:
  "''A'' \<noteq> [] \<and> length ''A'' \<le> 100
   \<and> list_all (\<lambda>c. \<not> isLowerAZ c \<and> \<not> isDigit c) ''A''
   \<and> validate_event (sample_event\<lparr>title := ''A''\<rparr>) = []
   \<and> generateSlug ''A'' = ''a''
   \<and> save_event parse_east_of_UTC (new_document (sample_event\<lparr>title := ''A''\<rparr>) event_paths)
       = Inr (sample_event\<lparr>title := ''A'', slug := ''a'', time := ''10:undefined''\<rparr>)"
  by code_simp

section \<open>Properties of the Booking hook and of the queries\<close>

lemma find_None_iff: "List.find P xs = None \<longleftrightarrow> (\<forall>x\<in>set xs. \<not> P x)"
  by (induction xs) auto

lemma find_Some_set: "List.find P xs = Some x \<Longrightarrow> x \<in> set xs \<and> P x"
  by (induction xs) (auto split: if_splits)

lemma includes_middle: "includes_str (a @ i @ b) i"
proof -
  have "length a \<in> set [0..<Suc (length (a @ i @ b))]" by simp
  moreover have "take (length i) (drop (length a) (a @ i @ b)) = i" by simp
  ultimately show ?thesis unfolding includes_str_def list_ex_iff by blast
qed

lemma sample_collection: "collection sample_storage = [stored_hello, stored_next, stored_rust]"
  by (simp add: sample_storage_def)

lemma sample_slugs:
  "slug stored_hello = ''hello-world-2024''" "slug stored_next = ''next-conf''"
  "slug stored_rust = ''rust-day''"
  by (simp_all add: stored_hello_def stored_next_def stored_rust_def sample_event_def)

lemma sample_ids:
  "doc_id stored_hello = hello_id" "doc_id stored_next = next_id" "doc_id stored_rust = rust_id"
  by (simp_all add: stored_hello_def stored_next_def stored_rust_def sample_event_def)

lemma sample_ids_distinct:
  "hello_id \<noteq> next_id" "hello_id \<noteq> rust_id" "next_id \<noteq> rust_id"
  "hello_id \<noteq> absent_id" "next_id \<noteq> absent_id" "rust_id \<noteq> absent_id"
  by (simp_all add: hello_id_def next_id_def rust_id_def absent_id_def)

lemma sample_tags:
  "tags stored_hello = [''web'', ''next'']" "tags stored_next = [''next'', ''react'']"
  "tags stored_rust = [''rust'']"
  by (simp_all add: stored_hello_def stored_next_def stored_rust_def sample_event_def)

text \<open>
  Claim C6. When a booking is saved with \<open>eventId\<close> set or changed, the hook looks the
  event up by that identifier (the one query it makes). If the lookup finds no event the
  write fails with a ValidationError whose message holds the identifier, in its string
  form; if the lookup throws, which it does when the storage fails (an identifier that
  cannot be cast is refused before it gets into a booking), the write fails with a
  ValidationError of another message; if the event is there the write goes on. When
  \<open>eventId\<close> is not modified the hook makes no query and the write goes on.
\<close>

theorem booking_pre_save_checks_eventId:
  "(isModified b ''eventId'' \<and> findById_failure st = None
      \<and> (\<forall>e\<in>set (collection st). doc_id e \<noteq> eventId (content b))
    \<longrightarrow> fst (booking_pre_save st b)
          = Some (Exn ''ValidationError''
              (''Event with ID '' @ toHexString (eventId (content b)) @ '' does not exist''))
        \<and> includes_str (''Event with ID '' @ toHexString (eventId (content b)) @ '' does not exist'')
              (toHexString (eventId (content b))))
   \<and> (isModified b ''eventId'' \<and> findById_failure st = Some err
    \<longrightarrow> fst (booking_pre_save st b)
          = Some (Exn ''ValidationError'' ''Invalid event ID format or database error''))
   \<and> ''Invalid event ID format or database error'' \<noteq> ''Event with ID '' @ toHexString i @ '' does not exist''
   \<and> (isModified b ''eventId'' \<and> findById_failure st = None
      \<and> (\<exists>e\<in>set (collection st). doc_id e = eventId (content b))
    \<longrightarrow> fst (booking_pre_save st b) = None)
   \<and> (isModified b ''eventId''
    \<longrightarrow> snd (booking_pre_save st b) = st\<lparr>queries := queries st @ [FindById (eventId (content b))]\<rparr>)
   \<and> (\<not> isModified b ''eventId'' \<longrightarrow> booking_pre_save st b = (None, st))"
proof -
  let ?i = "eventId (content b)"
  have absent: "fst (booking_pre_save st b)
      = Some (Exn ''ValidationError'' (''Event with ID '' @ toHexString ?i @ '' does not exist''))"
    if "isModified b ''eventId''" "findById_failure st = None"
      "\<forall>e\<in>set (collection st). doc_id e \<noteq> ?i"
  proof -
    have "List.find (\<lambda>e. doc_id e = ?i) (collection st) = None"
      using that(3) by (simp add: find_None_iff)
    then show ?thesis using that by (simp add: booking_pre_save_def Event_findById_def)
  qed
  have thrown: "fst (booking_pre_save st b)
      = Some (Exn ''ValidationError'' ''Invalid event ID format or database error'')"
    if "isModified b ''eventId''" "findById_failure st = Some err"
    using that by (simp add: booking_pre_save_def Event_findById_def)
  have present: "fst (booking_pre_save st b) = None"
    if "isModified b ''eventId''" "findById_failure st = None"
      "\<exists>e\<in>set (collection st). doc_id e = ?i"
  proof -
    have "List.find (\<lambda>e. doc_id e = ?i) (collection st) \<noteq> None"
      using that(3) by (simp add: find_None_iff)
    then show ?thesis using that by (auto simp: booking_pre_save_def Event_findById_def)
  qed
  have logged: "snd (booking_pre_save st b) = st\<lparr>queries := queries st @ [FindById ?i]\<rparr>"
    if "isModified b ''eventId''"
    using that by (auto simp: booking_pre_save_def Event_findById_def split: sum.splits option.splits)
  have untouched: "booking_pre_save st b = (None, st)" if "\<not> isModified b ''eventId''"
    using that by (simp add: booking_pre_save_def)
  have distinct: "''Invalid event ID format or database error'' \<noteq> ''Event with ID '' @ toHexString i @ '' does not exist''"
    by simp
  have named: "includes_str (''Event with ID '' @ toHexString ?i @ '' does not exist'') (toHexString ?i)"
    by (rule includes_middle)
  show ?thesis using absent thrown present logged untouched distinct named by blast
qed

theorem booking_pre_save_checks_eventId_witness:
  "fst (booking_pre_save sample_storage (new_document (booking_of absent_id) [''eventId'', ''email'']))
     = Some (Exn ''ValidationError'' ''Event with ID 65e6f0a1b2c3d4e5f6a7b8cf does not exist'')
   \<and> fst (booking_pre_save failing_findById_storage (new_document (booking_of next_id) [''eventId'', ''email'']))
     = Some (Exn ''ValidationError'' ''Invalid event ID format or database error'')
   \<and> fst (booking_pre_save sample_storage (new_document (booking_of next_id) [''eventId'', ''email'']))
     = None
   \<and> queries (snd (booking_pre_save sample_storage (new_document (booking_of next_id) [''eventId'', ''email''])))
     = [FindById next_id]
   \<and> booking_pre_save sample_storage (loaded_document (booking_of absent_id) [''email''])
     = (None, sample_storage)"
proof -
  let ?absent = "new_document (booking_of absent_id) [''eventId'', ''email'']"
  let ?good = "new_document (booking_of next_id) [''eventId'', ''email'']"
  let ?same = "loaded_document (booking_of absent_id) [''email'']"
  have m: "isModified ?absent ''eventId''" "isModified ?good ''eventId''"
    "\<not> isModified ?same ''eventId''"
    by (simp_all add: isModified_def new_document_def loaded_document_def)
  have i: "eventId (content ?absent) = absent_id" "eventId (content ?good) = next_id"
    by (simp_all add: new_document_def booking_of_def)
  have h: "toHexString absent_id = ''65e6f0a1b2c3d4e5f6a7b8cf''" by code_simp
  have f: "findById_failure sample_storage = None" "queries sample_storage = []"
    by (simp_all add: sample_storage_def)
  have g: "findById_failure failing_findById_storage = Some (new_Error ''connection lost'')"
    by (simp add: failing_findById_storage_def)
  have a1: "\<forall>e\<in>set (collection sample_storage). doc_id e \<noteq> eventId (content ?absent)"
    using sample_ids_distinct by (simp add: sample_collection sample_ids i)
  have a2: "\<exists>e\<in>set (collection sample_storage). doc_id e = eventId (content ?good)"
    by (simp add: sample_collection sample_ids i)
  from booking_pre_save_checks_eventId[where b="?absent" and st=sample_storage] m(1) f a1
  have w1: "fst (booking_pre_save sample_storage ?absent)
     = Some (Exn ''ValidationError''
         (''Event with ID '' @ toHexString (eventId (content ?absent)) @ '' does not exist''))"
    by blast
  from booking_pre_save_checks_eventId[where b="?good" and st=failing_findById_storage
      and err="new_Error ''connection lost''"] m(2) g
  have w2: "fst (booking_pre_save failing_findById_storage ?good)
     = Some (Exn ''ValidationError'' ''Invalid event ID format or database error'')"
    by blast
  from booking_pre_save_checks_eventId[where b="?good" and st=sample_storage] m(2) f a2
  have w3: "fst (booking_pre_save sample_storage ?good) = None"
    and w4: "snd (booking_pre_save sample_storage ?good)
       = sample_storage\<lparr>queries := queries sample_storage @ [FindById (eventId (content ?good))]\<rparr>"
    by blast+
  from booking_pre_save_checks_eventId[where b="?same" and st=sample_storage] m(3)
  have w5: "booking_pre_save sample_storage ?same = (None, sample_storage)"
    by blast
  from w1 w2 w3 w4 w5 show ?thesis by (simp add: i h f)
qed

lemma similar_returns: "\<exists>evs. fst (getSimilarEventsBySlug st key) = Inr evs"
  by (cases "similar_try st key") (auto simp: getSimilarEventsBySlug_def split: sum.splits)

lemma similar_try_unresolved:
  assumes "connect_failure st \<noteq> None \<or> findOne_failure st \<noteq> None
           \<or> (\<forall>e\<in>set (collection st). slug e \<noteq> slug_setter key) \<or> find_failure st \<noteq> None"
  shows "isl (fst (similar_try st key))"
proof -
  have "List.find (\<lambda>e. slug e = slug_setter key) (collection st) = None"
    if "\<forall>e\<in>set (collection st). slug e \<noteq> slug_setter key"
    using that by (simp add: find_None_iff)
  then show ?thesis using assms
    by (auto simp: similar_try_def connectDB_def Event_findOne_def Event_find_def
        split: option.splits sum.splits)
qed

text \<open>
  Claim C7. For every slug and every state of the storage \<open>getSimilarEventsBySlug\<close>
  returns a sequence and throws nothing; the sequence is empty when the connection fails,
  when a query fails, or when no event has the slug (the slug of the query, which is the
  slug given, lower-cased and trimmed).
\<close>

theorem getSimilarEventsBySlug_never_throws:
  "(\<exists>evs. fst (getSimilarEventsBySlug st key) = Inr evs)
   \<and> (connect_failure st \<noteq> None \<or> findOne_failure st \<noteq> None
        \<or> (\<forall>e\<in>set (collection st). slug e \<noteq> slug_setter key) \<or> find_failure st \<noteq> None
      \<longrightarrow> fst (getSimilarEventsBySlug st key) = Inr [])"
proof -
  have "fst (getSimilarEventsBySlug st key) = Inr []" if "isl (fst (similar_try st key))"
    using that by (cases "similar_try st key") (auto simp: getSimilarEventsBySlug_def split: sum.splits)
  then show ?thesis using similar_returns[of st key] similar_try_unresolved[of st key] by blast
qed

theorem getSimilarEventsBySlug_never_throws_witness:
  "fst (getSimilarEventsBySlug sample_storage ''no-such-event'') = Inr []
   \<and> fst (getSimilarEventsBySlug unconfigured_storage ''hello-world-2024'') = Inr []
   \<and> fst (getSimilarEventsBySlug failing_findOne_storage ''hello-world-2024'') = Inr []
   \<and> fst (getSimilarEventsBySlug failing_find_storage ''hello-world-2024'') = Inr []"
proof -
  have k: "slug_setter ''no-such-event'' = ''no-such-event''" by code_simp
  have a: "\<forall>e\<in>set (collection sample_storage). slug e \<noteq> slug_setter ''no-such-event''"
    by (simp add: sample_collection sample_slugs k)
  have b: "connect_failure unconfigured_storage \<noteq> None" by (simp add: unconfigured_storage_def)
  have c: "find_failure failing_find_storage \<noteq> None" by (simp add: failing_find_storage_def)
  have d: "findOne_failure failing_findOne_storage \<noteq> None" by (simp add: failing_findOne_storage_def)
  from getSimilarEventsBySlug_never_throws[where st=sample_storage and key="''no-such-event''"] a
  have w1: "fst (getSimilarEventsBySlug sample_storage ''no-such-event'') = Inr []" by blast
  from getSimilarEventsBySlug_never_throws[where st=unconfigured_storage and key="''hello-world-2024''"] b
  have w2: "fst (getSimilarEventsBySlug unconfigured_storage ''hello-world-2024'') = Inr []" by blast
  from getSimilarEventsBySlug_never_throws[where st=failing_find_storage and key="''hello-world-2024''"] c
  have w3: "fst (getSimilarEventsBySlug failing_find_storage ''hello-world-2024'') = Inr []" by blast
  from getSimilarEventsBySlug_never_throws[where st=failing_findOne_storage and key="''hello-world-2024''"] d
  have w4: "fst (getSimilarEventsBySlug failing_findOne_storage ''hello-world-2024'') = Inr []" by blast
  from w1 w2 w3 w4 show ?thesis by blast
qed

lemma shares_tag_iff: "shares_tag ts e \<longleftrightarrow> set (tags e) \<inter> set ts \<noteq> {}"
  by (auto simp: shares_tag_def list_ex_iff)

lemma similar_resolved:
  assumes "connect_failure st = None" "findOne_failure st = None"
    and "List.find (\<lambda>e. slug e = slug_setter key) (collection st) = Some ev"
  shows "fst (getSimilarEventsBySlug st key) =
     (case find_failure st of Some err \<Rightarrow> Inr []
      | None \<Rightarrow> Inr (filter (\<lambda>e. doc_id e \<noteq> doc_id ev \<and> shares_tag (tags ev) e) (collection st)))"
  using assms
  by (auto simp: getSimilarEventsBySlug_def similar_try_def connectDB_def Event_findOne_def
      Event_find_def split: option.splits sum.splits)

text \<open>
  Claim C8, amended. When the slug resolves to an event (the connection and the lookup
  succeed and the lookup, made with the slug lower-cased and trimmed, finds it),
  \<open>getSimilarEventsBySlug\<close> returns exactly the events of the collection whose identifier
  is not that of the resolved event and which share one tag at least with it, when the
  query for them succeeds, and the empty sequence when that query fails. In every case
  the resolved event is not among the results, nor is any event with its identifier.
\<close>

theorem getSimilarEventsBySlug_shared_tags:
  "connect_failure st = None \<and> findOne_failure st = None
   \<and> List.find (\<lambda>e. slug e = slug_setter key) (collection st) = Some ev
   \<longrightarrow> (find_failure st = None \<longrightarrow>
          (\<exists>evs. fst (getSimilarEventsBySlug st key) = Inr evs
            \<and> evs = filter (\<lambda>e. doc_id e \<noteq> doc_id ev \<and> shares_tag (tags ev) e) (collection st)
            \<and> set evs = {e \<in> set (collection st). doc_id e \<noteq> doc_id ev
                            \<and> set (tags e) \<inter> set (tags ev) \<noteq> {}}))
       \<and> (find_failure st \<noteq> None \<longrightarrow> fst (getSimilarEventsBySlug st key) = Inr [])
       \<and> (\<forall>evs. fst (getSimilarEventsBySlug st key) = Inr evs
            \<longrightarrow> ev \<notin> set evs \<and> (\<forall>e\<in>set evs. doc_id e \<noteq> doc_id ev))"
proof (intro impI, elim conjE)
  assume a: "connect_failure st = None" "findOne_failure st = None"
    "List.find (\<lambda>e. slug e = slug_setter key) (collection st) = Some ev"
  note r = similar_resolved[OF a]
  have 1: "find_failure st = None \<longrightarrow>
          (\<exists>evs. fst (getSimilarEventsBySlug st key) = Inr evs
            \<and> evs = filter (\<lambda>e. doc_id e \<noteq> doc_id ev \<and> shares_tag (tags ev) e) (collection st)
            \<and> set evs = {e \<in> set (collection st). doc_id e \<noteq> doc_id ev
                            \<and> set (tags e) \<inter> set (tags ev) \<noteq> {}})"
    using r by (auto simp: shares_tag_iff)
  have 2: "\<forall>evs. fst (getSimilarEventsBySlug st key) = Inr evs
            \<longrightarrow> ev \<notin> set evs \<and> (\<forall>e\<in>set evs. doc_id e \<noteq> doc_id ev)"
    using r by (auto split: option.splits)
  have 3: "find_failure st \<noteq> None \<longrightarrow> fst (getSimilarEventsBySlug st key) = Inr []"
    using r by (auto split: option.splits)
  show "(find_failure st = None \<longrightarrow>
          (\<exists>evs. fst (getSimilarEventsBySlug st key) = Inr evs
            \<and> evs = filter (\<lambda>e. doc_id e \<noteq> doc_id ev \<and> shares_tag (tags ev) e) (collection st)
            \<and> set evs = {e \<in> set (collection st). doc_id e \<noteq> doc_id ev
                            \<and> set (tags e) \<inter> set (tags ev) \<noteq> {}}))
       \<and> (find_failure st \<noteq> None \<longrightarrow> fst (getSimilarEventsBySlug st key) = Inr [])
       \<and> (\<forall>evs. fst (getSimilarEventsBySlug st key) = Inr evs
            \<longrightarrow> ev \<notin> set evs \<and> (\<forall>e\<in>set evs. doc_id e \<noteq> doc_id ev))"
    using 1 2 3 by blast
qed

theorem getSimilarEventsBySlug_shared_tags_witness:
  "List.find (\<lambda>e. slug e = slug_setter ''  HELLO-World-2024 '') (collection sample_storage)
     = Some stored_hello
   \<and> fst (getSimilarEventsBySlug sample_storage ''  HELLO-World-2024 '') = Inr [stored_next]
   \<and> stored_hello \<notin> set [stored_next]
   \<and> fst (getSimilarEventsBySlug failing_find_storage ''  HELLO-World-2024 '') = Inr []"
proof -
  have a: "connect_failure sample_storage = None" "findOne_failure sample_storage = None"
    "find_failure sample_storage = None"
    by (simp_all add: sample_storage_def)
  have a': "connect_failure failing_find_storage = None" "findOne_failure failing_find_storage = None"
    "find_failure failing_find_storage \<noteq> None"
    "collection failing_find_storage = collection sample_storage"
    by (simp_all add: failing_find_storage_def sample_storage_def)
  have k: "slug_setter ''  HELLO-World-2024 '' = ''hello-world-2024''" by code_simp
  have b: "List.find (\<lambda>e. slug e = slug_setter ''  HELLO-World-2024 '') (collection sample_storage)
      = Some stored_hello"
    by (simp add: sample_collection sample_slugs k)
  have c: "filter (\<lambda>e. doc_id e \<noteq> doc_id stored_hello \<and> shares_tag (tags stored_hello) e)
      (collection sample_storage) = [stored_next]"
    using sample_ids_distinct
    by (simp add: sample_collection sample_ids sample_tags shares_tag_def)
  from getSimilarEventsBySlug_shared_tags[where st=sample_storage and key="''  HELLO-World-2024 ''"
      and ev=stored_hello] a b
  obtain evs where e: "fst (getSimilarEventsBySlug sample_storage ''  HELLO-World-2024 '') = Inr evs"
    and f: "evs = filter (\<lambda>e. doc_id e \<noteq> doc_id stored_hello \<and> shares_tag (tags stored_hello) e)
      (collection sample_storage)"
    by blast
  from getSimilarEventsBySlug_shared_tags[where st=sample_storage and key="''  HELLO-World-2024 ''"
      and ev=stored_hello] a b e
  have g: "stored_hello \<notin> set evs" by blast
  from getSimilarEventsBySlug_shared_tags[where st=failing_find_storage and key="''  HELLO-World-2024 ''"
      and ev=stored_hello] a' b
  have h: "fst (getSimilarEventsBySlug failing_find_storage ''  HELLO-World-2024 '') = Inr []"
    by simp
  from b c e f g h show ?thesis by simp
qed

text \<open>
  The claim as stated fails when the query for the similar events fails: the slug
  resolves, another event shares a tag with the resolved one, and the result is empty.
\<close>

theorem getSimilarEventsBySlug_failed_query_counterexample:
  "connect_failure failing_find_storage = None \<and> findOne_failure failing_find_storage = None
   \<and> List.find (\<lambda>e. slug e = slug_setter ''hello-world-2024'') (collection failing_find_storage)
       = Some stored_hello
   \<and> stored_next \<in> set (collection failing_find_storage)
   \<and> doc_id stored_next \<noteq> doc_id stored_hello
   \<and> shares_tag (tags stored_hello) stored_next
   \<and> fst (getSimilarEventsBySlug failing_find_storage ''hello-world-2024'') = Inr []"
  by code_simp

section \<open>Properties of the handler\<close>

lemma GET_catch_status: "status (GET_catch e) = 500"
  by (cases e) (auto simp: GET_catch_def json_def)

lemma GET_catch_message:
  "message (GET_catch e) =
     (case e of Exn n m \<Rightarrow> if includes_str m ''MONGODB_URI'' then ''Database connection error''
                           else ''Event fetching failed''
      | NonErrorThrown \<Rightarrow> ''An unexpected error occurred'')"
  by (cases e) (auto simp: GET_catch_def json_def)

text \<open>
  Claim C9, amended. The handler connects to the storage first. When the connection
  fails the response is 500 whatever the slug parameter is, a blank or missing one
  included; the message is "Database connection error" when the error's message holds
  "MONGODB_URI", and another one otherwise. Once connected, a missing, non-string or
  blank slug gives 400 and no query is made; otherwise the one query made is for the slug
  trimmed and lower-cased; if that query throws the response is 500 with the same choice
  of message, if it finds no event the response is 404, and if it finds one the response
  is 200 with the event.
\<close>

theorem GET_outcomes:
  "(connect_failure st = Some err \<longrightarrow> GET st p = (GET_catch err, st))
   \<and> status (GET_catch err) = 500
   \<and> (includes_str m ''MONGODB_URI'' \<longrightarrow> message (GET_catch (Exn n m)) = ''Database connection error'')
   \<and> (\<not> includes_str m ''MONGODB_URI'' \<longrightarrow> message (GET_catch (Exn n m)) = ''Event fetching failed'')
   \<and> message (GET_catch NonErrorThrown) = ''An unexpected error occurred''
   \<and> (connect_failure st = None \<and> blank_param p
      \<longrightarrow> GET st p = (json 400 ''Invalid or missing slug parameter'', st))
   \<and> (connect_failure st = None \<and> \<not> blank_param p
      \<longrightarrow> snd (GET st p) = st\<lparr>queries := queries st @ [FindOne (toLowerCase (trim (param_string p)))]\<rparr>)
   \<and> (connect_failure st = None \<and> \<not> blank_param p \<and> findOne_failure st = Some err
      \<longrightarrow> fst (GET st p) = GET_catch err)
   \<and> (connect_failure st = None \<and> \<not> blank_param p \<and> findOne_failure st = None
        \<and> (\<forall>e\<in>set (collection st). slug e \<noteq> toLowerCase (trim (param_string p)))
      \<longrightarrow> fst (GET st p) = json 404 ''Event not found'')
   \<and> (connect_failure st = None \<and> \<not> blank_param p \<and> findOne_failure st = None
        \<and> List.find (\<lambda>e. slug e = toLowerCase (trim (param_string p))) (collection st) = Some ev
      \<longrightarrow> fst (GET st p) = (json 200 ''Event fetched successfully'')\<lparr>event_of := Some ev\<rparr>)"
proof -
  have nf: "List.find (\<lambda>e. slug e = k) (collection st) = None"
    if "\<forall>e\<in>set (collection st). slug e \<noteq> k" for k
    using that by (simp add: find_None_iff)
  have 1: "connect_failure st = Some err \<longrightarrow> GET st p = (GET_catch err, st)"
    by (simp add: GET_def connectDB_def)
  have 2: "connect_failure st = None \<and> blank_param p
      \<longrightarrow> GET st p = (json 400 ''Invalid or missing slug parameter'', st)"
    by (simp add: GET_def connectDB_def)
  have 3: "connect_failure st = None \<and> \<not> blank_param p
      \<longrightarrow> snd (GET st p) = st\<lparr>queries := queries st @ [FindOne (toLowerCase (trim (param_string p)))]\<rparr>"
    by (auto simp: GET_def connectDB_def Event_findOne_def slug_setter_sanitized split: option.splits)
  have 4: "connect_failure st = None \<and> \<not> blank_param p \<and> findOne_failure st = Some err
      \<longrightarrow> fst (GET st p) = GET_catch err"
    by (simp add: GET_def connectDB_def Event_findOne_def slug_setter_sanitized)
  have 5: "connect_failure st = None \<and> \<not> blank_param p \<and> findOne_failure st = None
        \<and> (\<forall>e\<in>set (collection st). slug e \<noteq> toLowerCase (trim (param_string p)))
      \<longrightarrow> fst (GET st p) = json 404 ''Event not found''"
    using nf[of "toLowerCase (trim (param_string p))"]
    by (auto simp: GET_def connectDB_def Event_findOne_def slug_setter_sanitized)
  have 6: "connect_failure st = None \<and> \<not> blank_param p \<and> findOne_failure st = None
        \<and> List.find (\<lambda>e. slug e = toLowerCase (trim (param_string p))) (collection st) = Some ev
      \<longrightarrow> fst (GET st p) = (json 200 ''Event fetched successfully'')\<lparr>event_of := Some ev\<rparr>"
    by (simp add: GET_def connectDB_def Event_findOne_def slug_setter_sanitized)
  show ?thesis using 1 2 3 4 5 6 GET_catch_status[of err] by (simp add: GET_catch_message)
qed

theorem GET_outcomes_witness:
  "fst (GET unconfigured_storage (Param ''hello-world-2024'')) = json 500 ''Database connection error''
   \<and> GET sample_storage (Param ''   '') = (json 400 ''Invalid or missing slug parameter'', sample_storage)
   \<and> GET sample_storage Missing = (json 400 ''Invalid or missing slug parameter'', sample_storage)
   \<and> queries (snd (GET sample_storage (Param ''  Next-Conf ''))) = [FindOne ''next-conf'']
   \<and> fst (GET sample_storage (Param ''  Next-Conf ''))
       = (json 200 ''Event fetched successfully'')\<lparr>event_of := Some stored_next\<rparr>
   \<and> fst (GET sample_storage (Param ''no-such-event'')) = json 404 ''Event not found''
   \<and> status (fst (GET failing_findOne_storage (Param ''next-conf''))) = 500
   \<and> message (fst (GET failing_findOne_storage (Param ''next-conf''))) = ''Event fetching failed''"
proof -
  have a: "connect_failure sample_storage = None" "findOne_failure sample_storage = None"
    "queries sample_storage = []"
    by (simp_all add: sample_storage_def)
  have u: "connect_failure unconfigured_storage
      = Some (Exn ''Error'' ''Please define the MONGODB_URI environment variable'')"
    by (simp add: unconfigured_storage_def new_Error_def)
  have inc: "includes_str ''Please define the MONGODB_URI environment variable'' ''MONGODB_URI''"
    by code_simp
  have ninc: "\<not> includes_str ''connection lost'' ''MONGODB_URI''" by code_simp
  have b: "blank_param (Param ''   '')" "blank_param Missing" "\<not> blank_param (Param ''  Next-Conf '')"
    "\<not> blank_param (Param ''no-such-event'')" "\<not> blank_param (Param ''next-conf'')"
    by code_simp+
  have k: "toLowerCase (trim (param_string (Param ''  Next-Conf ''))) = ''next-conf''"
    "toLowerCase (trim (param_string (Param ''no-such-event''))) = ''no-such-event''"
    "toLowerCase (trim (param_string (Param ''next-conf''))) = ''next-conf''"
    by code_simp+
  have f: "List.find (\<lambda>e. slug e = ''next-conf'') (collection sample_storage) = Some stored_next"
    by (simp add: sample_collection sample_slugs)
  have n: "\<forall>e\<in>set (collection sample_storage). slug e \<noteq> ''no-such-event''"
    by (simp add: sample_collection sample_slugs)
  have ff: "connect_failure failing_findOne_storage = None"
    "findOne_failure failing_findOne_storage = Some (Exn ''Error'' ''connection lost'')"
    by (simp_all add: failing_findOne_storage_def sample_storage_def new_Error_def)
  note t = GET_outcomes
  from t[where st=unconfigured_storage and p="Param ''hello-world-2024''"
        and err="Exn ''Error'' ''Please define the MONGODB_URI environment variable''"
        and m="''Please define the MONGODB_URI environment variable''" and n="''Error''"] u inc
  have w1: "fst (GET unconfigured_storage (Param ''hello-world-2024'')) = json 500 ''Database connection error''"
    by (simp add: GET_catch_def)
  from t[where st=sample_storage and p="Param ''   ''"] a b
  have w2: "GET sample_storage (Param ''   '') = (json 400 ''Invalid or missing slug parameter'', sample_storage)"
    by blast
  from t[where st=sample_storage and p="Missing"] a b
  have w3: "GET sample_storage Missing = (json 400 ''Invalid or missing slug parameter'', sample_storage)"
    by blast
  from t[where st=sample_storage and p="Param ''  Next-Conf ''" and ev=stored_next] a b k f
  have w4: "snd (GET sample_storage (Param ''  Next-Conf ''))
        = sample_storage\<lparr>queries := queries sample_storage @ [FindOne ''next-conf'']\<rparr>"
    and w5: "fst (GET sample_storage (Param ''  Next-Conf ''))
       = (json 200 ''Event fetched successfully'')\<lparr>event_of := Some stored_next\<rparr>"
    by simp_all
  from t[where st=sample_storage and p="Param ''no-such-event''"] a b k n
  have w6: "fst (GET sample_storage (Param ''no-such-event'')) = json 404 ''Event not found''"
    by simp
  from t[where st=failing_findOne_storage and p="Param ''next-conf''"
        and err="Exn ''Error'' ''connection lost''" and m="''connection lost''" and n="''Error''"] ff b ninc
  have w7: "fst (GET failing_findOne_storage (Param ''next-conf'')) = GET_catch (Exn ''Error'' ''connection lost'')"
    and w8: "message (GET_catch (Exn ''Error'' ''connection lost'')) = ''Event fetching failed''"
    and w9: "status (GET_catch (Exn ''Error'' ''connection lost'')) = 500"
    by simp_all
  from w1 w2 w3 w4 w5 w6 w7 w8 w9 a show ?thesis by simp
qed

text \<open>
  The claim as stated fails for a blank or missing slug when the connection cannot be
  made: the response is 500, not 400.
\<close>

theorem GET_blank_slug_counterexample:
  "blank_param (Param ''  '') \<and> status (fst (GET unconfigured_storage (Param ''  ''))) = 500
   \<and> blank_param Missing \<and> status (fst (GET unconfigured_storage Missing)) = 500"
  by code_simp

end
